theory Spec2Isabelle
  imports Complex_Main "HOL-Library.Multiset"
begin

section \<open>Strings and timestamps\<close>

text \<open>
  A JavaScript string is a sequence of UTF-16 code units; \<open>length\<close> counts code units.
  String literals of the source are written \<open>js ''...''\<close>. Timestamps (the ISO strings
  produced by \<open>new Date().toISOString()\<close>, read back with \<open>new Date(s).getTime()\<close>) are
  kept as the integer number of milliseconds they denote.
\<close>

type_synonym jsstring = "nat list"

definition js :: "string \<Rightarrow> jsstring" where
  "js s = map of_char s"

text \<open>Truthiness of a possibly missing string: \<open>undefined\<close>, \<open>null\<close> and \<open>''\<close> are falsy.\<close>

fun truthy :: "jsstring option \<Rightarrow> bool" where
  "truthy None = False"
| "truthy (Some s) = (s \<noteq> [])"

section \<open>Data model\<close>

record githubData =
  gd_type :: "jsstring option"
  gd_title :: "jsstring option"
  gd_state :: "jsstring option"
  gd_merged :: bool
  gd_homepage :: "jsstring option"
  gd_fetchedAt :: "int option"
  gd_notFoundCount :: "nat option"

record agent =
  btcAddress :: jsstring
  displayName :: jsstring
  agentId :: "jsstring option"

record leader =
  l_btcAddress :: jsstring
  l_displayName :: jsstring
  l_agentId :: "jsstring option"
  l_profileUrl :: jsstring
  l_assignedAt :: int
  l_lastActiveAt :: "int option"

record rating =
  r_agentId :: "jsstring option"
  r_btcAddress :: jsstring
  r_displayName :: jsstring
  r_score :: int
  r_review :: "jsstring option"
  r_ratedAt :: int

text \<open>
  \<open>reputation.average\<close> is \<open>Math.round(mean * 10) / 10\<close>; the record keeps the rounded
  integer \<open>Math.round(mean * 10)\<close>, the average in tenths.
\<close>

record reputation =
  average_tenths :: int
  rep_count :: nat

record website =
  w_url :: jsstring
  w_source :: jsstring
  w_discoveredAt :: int

record deliverable =
  d_url :: jsstring
  d_title :: jsstring

record item =
  item_id :: jsstring
  title :: jsstring
  githubUrl :: jsstring
  githubData :: "githubData option"
  status :: jsstring
  leader :: "leader option"
  contributors :: "agent list"
  deliverables :: "deliverable list"
  ratings :: "rating list"
  reputation :: reputation
  mentions :: "nat option"
  website :: "website option"
  searchTerms :: "jsstring list"
  updatedAt :: int

section \<open>Status derivation\<close>

text \<open>
  \<open>deriveStatus(item)\<close> of the shared task module. The last branch is taken for every
  type other than \<open>'repo'\<close> and \<open>'pr'\<close>, the issue type among them.
\<close>

definition deriveStatus :: "item \<Rightarrow> jsstring" where
  "deriveStatus it =
     (case githubData it of
        None \<Rightarrow> js ''todo''
      | Some gd \<Rightarrow>
          if \<not> truthy (gd_type gd) then js ''todo''
          else if gd_type gd = Some (js ''repo'') then
            (if gd_state gd = Some (js ''archived'') then js ''done'' else js ''in-progress'')
          else if gd_type gd = Some (js ''pr'') then
            (if gd_merged gd then js ''done''
             else if gd_state gd = Some (js ''closed'') then js ''blocked''
             else js ''in-progress'')
          else (if gd_state gd = Some (js ''closed'') then js ''done'' else js ''in-progress''))"

section \<open>Text primitives\<close>

text \<open>
  The code units \<open>String.prototype.trim\<close> and the regular expression class \<open>\s\<close> treat
  as white space.
\<close>

definition is_space :: "nat \<Rightarrow> bool" where
  "is_space c \<longleftrightarrow>
     c \<in> {9, 10, 11, 12, 13, 32, 160, 5760, 8232, 8233, 8239, 8287, 12288, 65279}
     \<or> (8192 \<le> c \<and> c \<le> 8202)"

definition trim :: "jsstring \<Rightarrow> jsstring" where
  "trim s = rev (dropWhile is_space (rev (dropWhile is_space s)))"

text \<open>\<open>Array.prototype.findIndex\<close>: the first index whose element passes, if any.\<close>

fun findIndex :: "('a \<Rightarrow> bool) \<Rightarrow> 'a list \<Rightarrow> nat option" where
  "findIndex p [] = None"
| "findIndex p (x # xs) =
     (if p x then Some 0 else (case findIndex p xs of None \<Rightarrow> None | Some i \<Rightarrow> Some (Suc i)))"

text \<open>\<open>Math.round\<close>: to the nearest integer, halves upwards; numbers are taken exactly.\<close>

definition math_round :: "rat \<Rightarrow> int" where
  "math_round x = \<lfloor>x + 1 / 2\<rfloor>"

text \<open>
  The letters \<open>A\<close> to \<open>Z\<close> in lower case, every other code unit kept. This is how a
  regular expression with the \<open>i\<close> flag (and without the \<open>u\<close> flag) compares a code unit
  with an ASCII letter of its pattern: only the two cases of that letter match it. It is
  also what \<open>String.prototype.toLowerCase\<close> does to a string of ASCII characters.
\<close>

definition ascii_lower :: "jsstring \<Rightarrow> jsstring" where
  "ascii_lower s = map (\<lambda>c. if 65 \<le> c \<and> c \<le> 90 then c + 32 else c) s"

fun starts_with :: "jsstring \<Rightarrow> jsstring \<Rightarrow> bool" where
  "starts_with s [] = True"
| "starts_with [] (p # ps) = False"
| "starts_with (c # cs) (p # ps) = (c = p \<and> starts_with cs ps)"

text \<open>\<open>haystack.includes(needle)\<close>.\<close>

fun str_includes :: "jsstring \<Rightarrow> jsstring \<Rightarrow> bool" where
  "str_includes [] needle = (needle = [])"
| "str_includes (c # cs) needle = (starts_with (c # cs) needle \<or> str_includes cs needle)"

definition ends_with :: "jsstring \<Rightarrow> jsstring \<Rightarrow> bool" where
  "ends_with s suffix = starts_with (rev s) (rev suffix)"

text \<open>Splitting at every code unit that satisfies \<open>p\<close>; the result is never empty.\<close>

fun split_on :: "(nat \<Rightarrow> bool) \<Rightarrow> jsstring \<Rightarrow> jsstring list" where
  "split_on p [] = [[]]"
| "split_on p (c # cs) =
     (if p c then [] # split_on p cs
      else (case split_on p cs of [] \<Rightarrow> [[c]] | w # ws \<Rightarrow> (c # w) # ws))"

text \<open>The rest of \<open>s\<close> after the prefix \<open>p\<close>, if \<open>s\<close> starts with it.\<close>

definition strip_prefix :: "jsstring \<Rightarrow> jsstring \<Rightarrow> jsstring option" where
  "strip_prefix p s = (if starts_with s p then Some (drop (length p) s) else None)"

text \<open>
  Two functions of the platform are parameters of everything that calls them.
  \<open>new_URL\<close> is the URL parser, \<open>new URL(u)\<close>: the \<open>hostname\<close> and the \<open>pathname\<close> of \<open>u\<close>, or
  nothing when the constructor throws. \<open>toLowerCase\<close> is \<open>String.prototype.toLowerCase\<close>,
  the lower-casing of the Unicode standard, which depends on the standard's tables and,
  for some letters, on the neighbouring characters. Nothing is assumed of either.
\<close>

type_synonym url_parser = "jsstring \<Rightarrow> (jsstring \<times> jsstring) option"

record platform =
  new_URL :: url_parser
  toLowerCase :: "jsstring \<Rightarrow> jsstring"

text \<open>A blank item, from which the concrete items of the examples are built.\<close>

definition item0 :: item where
  "item0 = \<lparr>item_id = [], title = [], githubUrl = [], githubData = None, status = [],
            leader = None, contributors = [], deliverables = [], ratings = [],
            reputation = \<lparr>average_tenths = 0, rep_count = 0\<rparr>, mentions = None,
            website = None, searchTerms = [], updatedAt = 0\<rparr>"

definition githubData0 :: githubData where
  "githubData0 = \<lparr>gd_type = None, gd_title = None, gd_state = None, gd_merged = False,
                  gd_homepage = None, gd_fetchedAt = None, gd_notFoundCount = None\<rparr>"

definition agent0 :: agent where
  "agent0 = \<lparr>btcAddress = js ''bc1qexample'', displayName = js ''Example Agent'', agentId = None\<rparr>"

section \<open>The versioned store\<close>

text \<open>
  The registry blob kept under the key \<open>roadmap:items\<close>. \<open>writeVersion\<close> is the
  optimistic-concurrency token; it is missing in blobs written before it was introduced.
  Registries are taken at the current schema version, where the lazy migrations of
  \<open>getData\<close> do nothing and every item already carries the fields of the record \<open>item\<close>.
\<close>

record registry =
  writeVersion :: "nat option"
  items :: "item list"
  reg_updatedAt :: "int option"

datatype error = ConcurrencyError | KvError

text \<open>\<open>x.writeVersion || 0\<close> on a registry, and \<open>current?.writeVersion || 0\<close> on a stored blob.\<close>

definition version_or_0 :: "registry \<Rightarrow> nat" where
  "version_or_0 d = (case writeVersion d of None \<Rightarrow> 0 | Some v \<Rightarrow> v)"

definition stored_version :: "registry option \<Rightarrow> nat" where
  "stored_version cur = (case cur of None \<Rightarrow> 0 | Some r \<Rightarrow> version_or_0 r)"

definition getData :: "registry option \<Rightarrow> registry" where
  "getData raw =
     (let d = (case raw of None \<Rightarrow> \<lparr>writeVersion = None, items = [], reg_updatedAt = None\<rparr>
                         | Some r \<Rightarrow> r)
      in d\<lparr>writeVersion := Some (version_or_0 d)\<rparr>)"

text \<open>
  \<open>saveData\<close> in its two halves: the read and comparison of the stored version, which
  throws \<open>ConcurrencyError\<close> or yields the expected version, and the blob that is then put.
\<close>

definition saveData_check :: "registry option \<Rightarrow> registry \<Rightarrow> error + nat" where
  "saveData_check current d =
     (let expectedVersion = version_or_0 d;
          currentVersion = stored_version current
      in if currentVersion \<noteq> expectedVersion then Inl ConcurrencyError else Inr expectedVersion)"

definition saveData_write :: "int \<Rightarrow> registry \<Rightarrow> nat \<Rightarrow> registry" where
  "saveData_write now d expectedVersion =
     d\<lparr>writeVersion := Some (expectedVersion + 1), reg_updatedAt := Some now\<rparr>"

text \<open>
  One call of \<open>saveData\<close> with nothing else touching the key between its read and its
  write: the result is the error thrown, or the registry object as the call leaves it,
  together with the new stored blob.
\<close>

definition saveData :: "int \<Rightarrow> registry \<Rightarrow> registry option \<Rightarrow> (error + registry) \<times> registry option" where
  "saveData now d st =
     (case saveData_check st d of
        Inl e \<Rightarrow> (Inl e, st)
      | Inr v \<Rightarrow> (let d' = saveData_write now d v in (Inr d', Some d')))"

subsection \<open>Two writers, step by step\<close>

text \<open>
  A writer that has loaded a registry and calls \<open>saveData\<close> is at one of its two awaits:
  before the read of the stored version, or between the comparison and the write. Other
  invocations may run in between; a schedule says which writer moves next.
\<close>

datatype writer = Loaded registry | Checked registry nat | Saved registry | Conflict error

fun save_step :: "int \<Rightarrow> writer \<Rightarrow> registry option \<Rightarrow> writer \<times> registry option" where
  "save_step now (Loaded d) st =
     (case saveData_check st d of Inl e \<Rightarrow> (Conflict e, st) | Inr v \<Rightarrow> (Checked d v, st))"
| "save_step now (Checked d v) st = (let d' = saveData_write now d v in (Saved d', Some d'))"
| "save_step now (Saved d) st = (Saved d, st)"
| "save_step now (Conflict e) st = (Conflict e, st)"

text \<open>The schedule is a list of turns: \<open>False\<close> moves the first writer, \<open>True\<close> the second.\<close>

fun run_writers :: "int \<Rightarrow> bool list \<Rightarrow> writer \<times> writer \<times> registry option
    \<Rightarrow> writer \<times> writer \<times> registry option" where
  "run_writers now [] s = s"
| "run_writers now (t # ts) (a, b, st) =
     (if t then (let (b', st') = save_step now b st in run_writers now ts (a, b', st'))
      else (let (a', st') = save_step now a st in run_writers now ts (a', b, st')))"

fun succeeded :: "writer \<Rightarrow> bool" where
  "succeeded (Saved d) = True"
| "succeeded w = False"

fun conflicted :: "writer \<Rightarrow> bool" where
  "conflicted (Conflict e) = (e = ConcurrencyError)"
| "conflicted w = False"

subsection \<open>The retrying save of the background scans\<close>

text \<open>
  While \<open>saveRetry\<close> runs, other invocations write the key. The world holds the stored
  blob, what the other invocations do just before each of this invocation's next KV
  accesses (nothing, a write of their own, or a failure of the access), the delays this
  invocation has slept so far, and the blobs it has put so far.
\<close>

datatype env_action = Quiet | OtherWrite "registry option" | Fail

record world =
  stored :: "registry option"
  pending :: "env_action list"
  slept :: "nat list"
  puts :: "registry list"

definition env_turn :: "world \<Rightarrow> bool \<times> world" where
  "env_turn w =
     (case pending w of
        [] \<Rightarrow> (True, w)
      | Quiet # as \<Rightarrow> (True, w\<lparr>pending := as\<rparr>)
      | OtherWrite r # as \<Rightarrow> (True, w\<lparr>stored := r, pending := as\<rparr>)
      | Fail # as \<Rightarrow> (False, w\<lparr>pending := as\<rparr>))"

definition kv_get :: "world \<Rightarrow> (error + registry option) \<times> world" where
  "kv_get w = (let (ok, w') = env_turn w in if ok then (Inr (stored w'), w') else (Inl KvError, w'))"

definition kv_put :: "registry \<Rightarrow> world \<Rightarrow> (error + unit) \<times> world" where
  "kv_put d w =
     (let (ok, w') = env_turn w
      in if ok then (Inr (), w'\<lparr>stored := Some d, puts := puts w' @ [d]\<rparr>) else (Inl KvError, w'))"

definition saveData_in :: "int \<Rightarrow> registry \<Rightarrow> world \<Rightarrow> (error + registry) \<times> world" where
  "saveData_in now d w =
     (case kv_get w of
        (Inl e, w1) \<Rightarrow> (Inl e, w1)
      | (Inr current, w1) \<Rightarrow>
          (case saveData_check current d of
             Inl e \<Rightarrow> (Inl e, w1)
           | Inr v \<Rightarrow>
               (let d' = saveData_write now d v in
                case kv_put d' w1 of
                  (Inl e, w2) \<Rightarrow> (Inl e, w2)
                | (Inr u, w2) \<Rightarrow> (Inr d', w2))))"

definition backoff :: "nat \<Rightarrow> nat" where
  "backoff attempt = min (100 * 2 ^ (attempt - 1)) 5000"

function saveRetry_from :: "int \<Rightarrow> nat \<Rightarrow> nat \<Rightarrow> registry \<Rightarrow> world \<Rightarrow> (error + registry) \<times> world" where
  "saveRetry_from now maxRetries attempt d w =
     (if attempt \<le> maxRetries then
        (case saveData_in now d w of
           (Inr d', w1) \<Rightarrow> (Inr d', w1)
         | (Inl err, w1) \<Rightarrow>
             if err \<noteq> ConcurrencyError then (Inl err, w1)
             else if attempt = maxRetries then (Inl err, w1)
             else
               (let w2 = w1\<lparr>slept := slept w1 @ [backoff attempt]\<rparr> in
                case kv_get w2 of
                  (Inl e, w3) \<Rightarrow> (Inl e, w3)
                | (Inr fresh, w3) \<Rightarrow>
                    saveRetry_from now maxRetries (attempt + 1)
                      (d\<lparr>writeVersion := Some (stored_version fresh)\<rparr>) w3))
      else (Inr d, w))"
  by pat_completeness auto
termination
  by (relation "measure (\<lambda>(now, maxRetries, attempt, d, w). maxRetries + 1 - attempt)") auto

declare saveRetry_from.simps [simp del]

definition saveRetry :: "int \<Rightarrow> registry \<Rightarrow> world \<Rightarrow> (error + registry) \<times> world" where
  "saveRetry now d w = saveRetry_from now 3 1 d w"

section \<open>Reordering the registry\<close>

text \<open>
  A JavaScript \<open>Map\<close> keeps its keys in insertion order; setting an existing key replaces
  the value and keeps the key's position.
\<close>

type_synonym ('k, 'v) jsmap = "('k \<times> 'v) list"

fun map_set :: "'k \<Rightarrow> 'v \<Rightarrow> ('k, 'v) jsmap \<Rightarrow> ('k, 'v) jsmap" where
  "map_set k v [] = [(k, v)]"
| "map_set k v ((k', v') # m) = (if k' = k then (k, v) # m else (k', v') # map_set k v m)"

definition new_Map :: "('k \<times> 'v) list \<Rightarrow> ('k, 'v) jsmap" where
  "new_Map ps = foldl (\<lambda>m (k, v). map_set k v m) [] ps"

definition map_delete :: "'k \<Rightarrow> ('k, 'v) jsmap \<Rightarrow> ('k, 'v) jsmap" where
  "map_delete k m = filter (\<lambda>(k', v). k' \<noteq> k) m"

fun reorder_loop :: "jsstring list \<Rightarrow> (jsstring, item) jsmap \<Rightarrow> item list
    \<Rightarrow> (jsstring, item) jsmap \<times> item list" where
  "reorder_loop [] m reordered = (m, reordered)"
| "reorder_loop (i # ids) m reordered =
     (case map_of m i of
        Some it \<Rightarrow> reorder_loop ids (map_delete i m) (reordered @ [it])
      | None \<Rightarrow> reorder_loop ids m reordered)"

definition reorder_items :: "jsstring list \<Rightarrow> item list \<Rightarrow> item list" where
  "reorder_items orderedIds its =
     (let (m, reordered) = reorder_loop orderedIds (new_Map (map (\<lambda>i. (item_id i, i)) its)) []
      in reordered @ map snd m)"

datatype reorder_response = Reorder401 | Reorder400 | Reorder200 nat

text \<open>
  The POST handler of the reorder endpoint: the authenticated agent (if any), the body's
  \<open>orderedIds\<close> (if it is an array), the clock and the stored blob. It writes the blob
  back without looking at the write version.
\<close>

definition reorder_onRequestPost ::
    "agent option \<Rightarrow> jsstring list option \<Rightarrow> int \<Rightarrow> registry option
     \<Rightarrow> reorder_response \<times> registry option" where
  "reorder_onRequestPost ag orderedIds now raw =
     (case ag of
        None \<Rightarrow> (Reorder401, raw)
      | Some a \<Rightarrow>
          (case orderedIds of
             None \<Rightarrow> (Reorder400, raw)
           | Some ids \<Rightarrow>
               (let d = (case raw of
                           None \<Rightarrow> \<lparr>writeVersion = None, items = [], reg_updatedAt = None\<rparr>
                         | Some r \<Rightarrow> r);
                    reordered = reorder_items ids (items d)
                in (Reorder200 (length reordered),
                    Some (d\<lparr>items := reordered, reg_updatedAt := Some now\<rparr>)))))"

text \<open>The ids of a list, each at its first occurrence, skipping those already seen.\<close>

fun first_occurrences :: "'a list \<Rightarrow> 'a list \<Rightarrow> 'a list" where
  "first_occurrences seen [] = []"
| "first_occurrences seen (x # xs) =
     (if x \<in> set seen then first_occurrences seen xs else x # first_occurrences (x # seen) xs)"

section \<open>The item endpoint: rating and leadership takeover\<close>

definition computeReputation :: "rating list \<Rightarrow> reputation" where
  "computeReputation rs =
     (if rs = [] then \<lparr>average_tenths = 0, rep_count = 0\<rparr>
      else (let sum = foldl (\<lambda>s r. s + r_score r) 0 rs
            in \<lparr>average_tenths = math_round ((of_int sum / of_nat (length rs)) * 10),
                rep_count = length rs\<rparr>))"

text \<open>\<open>addContributor\<close> of the shared task module.\<close>

definition addContributor :: "item \<Rightarrow> agent \<Rightarrow> item" where
  "addContributor it ag =
     (if btcAddress ag = [] then it
      else if list_ex (\<lambda>c. btcAddress c = btcAddress ag) (contributors it) then it
      else it\<lparr>contributors := contributors it @
                 [\<lparr>btcAddress = btcAddress ag, displayName = displayName ag,
                   agentId = (if truthy (agentId ag) then agentId ag else None)\<rparr>]\<rparr>)"

definition bumpLeaderActivity :: "int \<Rightarrow> item \<Rightarrow> agent \<Rightarrow> item" where
  "bumpLeaderActivity now it ag =
     (case leader it of
        None \<Rightarrow> it
      | Some l \<Rightarrow> if l_btcAddress l = btcAddress ag
                  then it\<lparr>leader := Some (l\<lparr>l_lastActiveAt := Some now\<rparr>)\<rparr> else it)"

datatype put_error =
    NotAuthenticated | MissingId | ItemNotFound
  | BadScore | ReviewTooLong
  | NoLeader | AlreadyLeader | LeaderStillActive int "int option"
  | Conflict409

text \<open>The upsert of the rate action: replace the account's rating, or append.\<close>

definition upsert_rating :: "rating \<Rightarrow> rating list \<Rightarrow> rating list" where
  "upsert_rating r rs =
     (case findIndex (\<lambda>x. r_btcAddress x = r_btcAddress r) rs of
        Some existingIdx \<Rightarrow> rs[existingIdx := r]
      | None \<Rightarrow> rs @ [r])"

text \<open>
  The rate action on the item found. \<open>score\<close> is \<open>None\<close> when \<open>body.score\<close> is not an
  integer; \<open>review\<close> is \<open>body.review || ''\<close>.
\<close>

definition rate_action :: "agent \<Rightarrow> int option \<Rightarrow> jsstring \<Rightarrow> int \<Rightarrow> item \<Rightarrow> put_error + item" where
  "rate_action ag score_in review_in now it =
     (case score_in of
        None \<Rightarrow> Inl BadScore
      | Some score \<Rightarrow>
          if score < 1 \<or> score > 5 then Inl BadScore
          else
            (let review = trim review_in in
             if length review > 280 then Inl ReviewTooLong
             else
               (let rating = \<lparr>r_agentId = agentId ag, r_btcAddress = btcAddress ag,
                              r_displayName = displayName ag, r_score = score,
                              r_review = (if review = [] then None else Some review),
                              r_ratedAt = now\<rparr>;
                    rs = upsert_rating rating (ratings it);
                    it1 = it\<lparr>ratings := rs, reputation := computeReputation rs\<rparr>;
                    it2 = addContributor it1 ag;
                    it3 = bumpLeaderActivity now it2 ag
                in Inr (it3\<lparr>updatedAt := now\<rparr>))))"

text \<open>A sequence of rate requests on one item; a rejected request leaves the item as it is.\<close>

fun rate_many :: "(agent \<times> int option \<times> jsstring \<times> int) list \<Rightarrow> item \<Rightarrow> item" where
  "rate_many [] it = it"
| "rate_many ((ag, score, review, now) # reqs) it =
     rate_many reqs (case rate_action ag score review now it of Inl e \<Rightarrow> it | Inr it' \<Rightarrow> it')"

text \<open>
  The inactivity takeover on the item found. \<open>clock\<close> is \<open>Date.now()\<close> at the check,
  \<open>now\<close> the time of the takeover written into the record.
\<close>

definition daysSinceActive :: "int \<Rightarrow> leader \<Rightarrow> rat" where
  "daysSinceActive clock l =
     (let lastActive = (case l_lastActiveAt l of None \<Rightarrow> 0 | Some t \<Rightarrow> t)
      in of_int (clock - lastActive) / (1000 * 60 * 60 * 24))"

definition claim_leadership_action :: "agent \<Rightarrow> int \<Rightarrow> int \<Rightarrow> item \<Rightarrow> put_error + item" where
  "claim_leadership_action ag clock now it =
     (case leader it of
        None \<Rightarrow> Inl NoLeader
      | Some l \<Rightarrow>
          if l_btcAddress l = btcAddress ag then Inl AlreadyLeader
          else if daysSinceActive clock l < 30
          then Inl (LeaderStillActive \<lfloor>daysSinceActive clock l\<rfloor> (l_lastActiveAt l))
          else
            (let it1 = it\<lparr>leader := Some \<lparr>l_btcAddress = btcAddress ag,
                                            l_displayName = displayName ag,
                                            l_agentId = agentId ag,
                                            l_profileUrl = js ''https://aibtc.com/agents/'' @ btcAddress ag,
                                            l_assignedAt = now, l_lastActiveAt = Some now\<rparr>\<rparr>;
                 it2 = addContributor it1 ag
             in Inr (it2\<lparr>updatedAt := now\<rparr>)))"

datatype put_action = Rate "int option" jsstring | ClaimLeadership

text \<open>
  The PUT handler for these two actions: authentication, lookup of the item by id, the
  action, and the save. A \<open>ConcurrencyError\<close> of the save becomes the 409 response.
  The request body carries no \<open>deliverable\<close> field: the handler tests \<open>body.deliverable\<close>
  before \<open>body.action\<close>, and a body with both is handled as a deliverable.
\<close>

definition handlePut ::
    "agent option \<Rightarrow> jsstring \<Rightarrow> put_action \<Rightarrow> int \<Rightarrow> int \<Rightarrow> registry option
     \<Rightarrow> (put_error + item) \<times> registry option" where
  "handlePut ag_opt body_id act clock now st =
     (case ag_opt of
        None \<Rightarrow> (Inl NotAuthenticated, st)
      | Some ag \<Rightarrow>
          if body_id = [] then (Inl MissingId, st)
          else
            (let d = getData st in
             case findIndex (\<lambda>i. item_id i = body_id) (items d) of
               None \<Rightarrow> (Inl ItemNotFound, st)
             | Some idx \<Rightarrow>
                 (case (case act of
                          Rate score review \<Rightarrow> rate_action ag score review now (items d ! idx)
                        | ClaimLeadership \<Rightarrow> claim_leadership_action ag clock now (items d ! idx)) of
                    Inl e \<Rightarrow> (Inl e, st)
                  | Inr it' \<Rightarrow>
                      (case saveData now (d\<lparr>items := (items d)[idx := it']\<rparr>) st of
                         (Inl e, st') \<Rightarrow> (Inl Conflict409, st')
                       | (Inr d', st') \<Rightarrow> (Inr it', st')))))"

text \<open>A leader last active at time 1000, and a store holding one item led by it.\<close>

definition leader0 :: leader where
  "leader0 = \<lparr>l_btcAddress = js ''bc1qleader'', l_displayName = js ''Leader'', l_agentId = None,
              l_profileUrl = js ''https://aibtc.com/agents/bc1qleader'',
              l_assignedAt = 0, l_lastActiveAt = Some 1000\<rparr>"

definition store0 :: "registry option" where
  "store0 = Some \<lparr>writeVersion = Some 4,
                  items = [item0\<lparr>item_id := js ''r_1'', leader := Some leader0\<rparr>],
                  reg_updatedAt = None\<rparr>"

text \<open>A stored registry at write version 4.\<close>

definition reg0 :: registry where
  "reg0 = \<lparr>writeVersion = Some 4, items = [item0\<lparr>item_id := js ''r_1''\<rparr>], reg_updatedAt = None\<rparr>"

text \<open>Worlds in which other writers move the stored version once, and five times.\<close>

definition world1 :: world where
  "world1 = \<lparr>stored = Some reg0,
             pending = [OtherWrite (Some (reg0\<lparr>writeVersion := Some 7\<rparr>))],
             slept = [], puts = []\<rparr>"

definition world5 :: world where
  "world5 = \<lparr>stored = Some reg0,
             pending = [OtherWrite (Some (reg0\<lparr>writeVersion := Some 5\<rparr>)),
                        OtherWrite (Some (reg0\<lparr>writeVersion := Some 6\<rparr>)),
                        OtherWrite (Some (reg0\<lparr>writeVersion := Some 7\<rparr>)),
                        OtherWrite (Some (reg0\<lparr>writeVersion := Some 8\<rparr>)),
                        OtherWrite (Some (reg0\<lparr>writeVersion := Some 9\<rparr>))],
             slept = [], puts = []\<rparr>"

text \<open>An item tracking an issue that was closed when last fetched, and the issue reopened.\<close>

definition closed_issue :: githubData where
  "closed_issue = \<lparr>gd_type = Some (js ''issue''), gd_title = Some (js ''Fix the parser''),
                   gd_state = Some (js ''closed''), gd_merged = False, gd_homepage = None,
                   gd_fetchedAt = Some 0, gd_notFoundCount = None\<rparr>"

definition reopened_issue :: githubData where
  "reopened_issue = closed_issue\<lparr>gd_state := Some (js ''open''), gd_fetchedAt := Some 900000\<rparr>"

definition issue_item :: item where
  "issue_item = item0\<lparr>item_id := js ''r_1'', title := js ''Parser'',
                       githubUrl := js ''https://github.com/o/r/issues/1'',
                       githubData := Some closed_issue, status := js ''done''\<rparr>"

text \<open>An item that four accounts have rated, the example agent among them.\<close>

definition rated_item :: item where
  "rated_item = item0\<lparr>item_id := js ''r_1'', ratings :=
     [\<lparr>r_agentId = None, r_btcAddress = js ''bc1qexample'', r_displayName = js ''Example Agent'',
       r_score = 2, r_review = None, r_ratedAt = 1\<rparr>,
      \<lparr>r_agentId = None, r_btcAddress = js ''bc1qb'', r_displayName = js ''B'',
       r_score = 4, r_review = None, r_ratedAt = 2\<rparr>,
      \<lparr>r_agentId = None, r_btcAddress = js ''bc1qc'', r_displayName = js ''C'',
       r_score = 4, r_review = None, r_ratedAt = 3\<rparr>,
      \<lparr>r_agentId = None, r_btcAddress = js ''bc1qd'', r_displayName = js ''D'',
       r_score = 4, r_review = None, r_ratedAt = 4\<rparr>]\<rparr>"


definition missing_issue_item :: item where
  "missing_issue_item = issue_item\<lparr>githubData := Some (closed_issue\<lparr>gd_notFoundCount := Some 2\<rparr>)\<rparr>"

section \<open>Refreshing the repository snapshots\<close>

text \<open>
  What \<open>fetchGithubData\<close> returns: \<open>null\<close> (unparsable URL, failed request), the
  \<open>_notFound\<close> marker of a 404, or a fresh snapshot.
\<close>

datatype fetched = FetchNull | FetchNotFound | Fresh githubData

record status_event =
  ev_itemId :: jsstring
  ev_itemTitle :: jsstring
  ev_oldStatus :: jsstring
  ev_newStatus :: jsstring

definition STALE_AFTER_MS :: int where
  "STALE_AFTER_MS = 15 * 60 * 1000"

definition fetchedAt_or_0 :: "item \<Rightarrow> int" where
  "fetchedAt_or_0 it =
     (case githubData it of
        None \<Rightarrow> 0
      | Some gd \<Rightarrow> (case gd_fetchedAt gd of None \<Rightarrow> 0 | Some t \<Rightarrow> t))"

text \<open>\<open>{ ...item.githubData, ... }\<close>: the old snapshot, or an empty object when there is none.\<close>

definition spread_githubData :: "item \<Rightarrow> githubData" where
  "spread_githubData it =
     (case githubData it of
        None \<Rightarrow> \<lparr>gd_type = None, gd_title = None, gd_state = None, gd_merged = False,
                  gd_homepage = None, gd_fetchedAt = None, gd_notFoundCount = None\<rparr>
      | Some gd \<Rightarrow> gd)"

text \<open>
  One turn of the loop of \<open>refreshStaleGithubData\<close>: the item as the turn leaves it,
  whether \<open>changed\<close> was set, whether \<open>refreshedCount\<close> went up, and the events pushed.
  The clock value \<open>now\<close> stands for every time stamp taken during the run.
\<close>

definition refresh_item ::
    "int \<Rightarrow> (jsstring \<Rightarrow> fetched) \<Rightarrow> item \<Rightarrow> item \<times> bool \<times> bool \<times> status_event list" where
  "refresh_item now fetch it =
     (if githubUrl it = [] then (it, False, False, [])
      else if now - fetchedAt_or_0 it < STALE_AFTER_MS then (it, False, False, [])
      else
        (case fetch (githubUrl it) of
           FetchNull \<Rightarrow> (it, False, False, [])
         | FetchNotFound \<Rightarrow>
             (let fails = (case gd_notFoundCount (spread_githubData it) of None \<Rightarrow> 0 | Some n \<Rightarrow> n) + 1
              in if fails \<ge> 3 \<and> \<not> (case githubData it of
                                         None \<Rightarrow> False
                                       | Some gd \<Rightarrow> gd_state gd = Some (js ''archived''))
                 then
                   (let it1 = it\<lparr>githubData := Some ((spread_githubData it)
                                    \<lparr>gd_state := Some (js ''archived''),
                                     gd_notFoundCount := Some fails,
                                     gd_fetchedAt := Some now\<rparr>)\<rparr>;
                        it2 = it1\<lparr>updatedAt := now\<rparr>
                    in (it2, True, False,
                        [\<lparr>ev_itemId = item_id it2, ev_itemTitle = title it2,
                          ev_oldStatus = deriveStatus it2, ev_newStatus = js ''done''\<rparr>]))
                 else
                   (it\<lparr>githubData := Some ((spread_githubData it)
                                    \<lparr>gd_notFoundCount := Some fails,
                                     gd_fetchedAt := Some now\<rparr>)\<rparr>,
                    True, False, []))
         | Fresh fresh \<Rightarrow>
             (let oldStatus = deriveStatus it;
                  it1 = it\<lparr>githubData := Some fresh\<rparr>;
                  newStatus = deriveStatus it1;
                  evs = (if oldStatus \<noteq> newStatus
                         then [\<lparr>ev_itemId = item_id it, ev_itemTitle = title it,
                                ev_oldStatus = oldStatus, ev_newStatus = newStatus\<rparr>]
                         else [])
              in (it1\<lparr>updatedAt := now\<rparr>, True, True, evs))))"

text \<open>The loop over all items.\<close>

fun refresh_items ::
    "int \<Rightarrow> (jsstring \<Rightarrow> fetched) \<Rightarrow> item list \<Rightarrow> item list \<times> bool \<times> nat \<times> status_event list" where
  "refresh_items now fetch [] = ([], False, 0, [])"
| "refresh_items now fetch (it # its) =
     (let (it', changed, refreshed, evs) = refresh_item now fetch it;
          (its', changed', count, evs') = refresh_items now fetch its
      in (it' # its', changed \<or> changed', (if refreshed then 1 else 0) + count, evs @ evs'))"

text \<open>
  \<open>refreshStaleGithubData\<close>: load, loop, and when something changed the retrying save
  followed by the recording of the events. The result is \<open>refreshedCount\<close> and
  \<open>statusChanges\<close>, with the events recorded; an error of the load or of the save ends
  the call.
\<close>

definition refreshStaleGithubData ::
    "int \<Rightarrow> (jsstring \<Rightarrow> fetched) \<Rightarrow> world
     \<Rightarrow> (error + (nat \<times> nat) \<times> status_event list) \<times> world" where
  "refreshStaleGithubData now fetch w =
     (case kv_get w of
        (Inl e, w1) \<Rightarrow> (Inl e, w1)
      | (Inr raw, w1) \<Rightarrow>
          (let d = getData raw;
               (its', changed, refreshedCount, autoCompleteEvents) = refresh_items now fetch (items d)
           in if changed then
                (case saveRetry now (d\<lparr>items := its'\<rparr>) w1 of
                   (Inl e, w2) \<Rightarrow> (Inl e, w2)
                 | (Inr d', w2) \<Rightarrow>
                     (Inr ((refreshedCount, length autoCompleteEvents), autoCompleteEvents), w2))
              else (Inr ((refreshedCount, length autoCompleteEvents), []), w1)))"

subsection \<open>The earlier revision of the item endpoint\<close>



section \<open>Mention matching\<close>

record match_term =
  t_text :: jsstring
  t_type :: jsstring

text \<open>
  Step 2 of \<open>getMatchTerms\<close> splits the lower-cased title at an em dash (U+2014), an
  en dash (U+2013) or a vertical bar, each with the white space around it, and trims the
  parts. The white space the expression takes
  around a delimiter is white space the trim removes as well, so the parts are those of
  a split at the delimiters alone, trimmed.
\<close>

definition is_title_delimiter :: "nat \<Rightarrow> bool" where
  "is_title_delimiter c \<longleftrightarrow> c = 8212 \<or> c = 8211 \<or> c = 124"

definition titleParts :: "jsstring \<Rightarrow> jsstring list" where
  "titleParts titleLower =
     filter (\<lambda>p. length p > 3) (map trim (split_on is_title_delimiter titleLower))"

text \<open>
  \<open>part.replace(/[^a-z0-9]+/g, '-').replace(/^-|-$/g, '')\<close>: every run of other code
  units becomes one hyphen, then a hyphen at the start and one at the end are dropped.
\<close>

definition is_slug_char :: "nat \<Rightarrow> bool" where
  "is_slug_char c \<longleftrightarrow> (97 \<le> c \<and> c \<le> 122) \<or> (48 \<le> c \<and> c \<le> 57)"

fun hyphenate :: "bool \<Rightarrow> jsstring \<Rightarrow> jsstring" where
  "hyphenate in_run [] = []"
| "hyphenate in_run (c # cs) =
     (if is_slug_char c then c # hyphenate False cs
      else if in_run then hyphenate True cs
      else 45 # hyphenate True cs)"

definition slugify :: "jsstring \<Rightarrow> jsstring" where
  "slugify part =
     (let s = hyphenate False part;
          s1 = (case s of [] \<Rightarrow> [] | c # cs \<Rightarrow> if c = 45 then cs else s)
      in if s1 \<noteq> [] \<and> last s1 = 45 then butlast s1 else s1)"

text \<open>
  \<open>githubUrl.replace(/^https?:\/\/(www\.)?github\.com\//, '').replace(/\/$/, '').toLowerCase()\<close>.
\<close>

definition strip_github_prefix :: "jsstring \<Rightarrow> jsstring" where
  "strip_github_prefix url =
     (case (case strip_prefix (js ''https://'') url of
              Some r \<Rightarrow> Some r
            | None \<Rightarrow> strip_prefix (js ''http://'') url) of
        None \<Rightarrow> url
      | Some r \<Rightarrow>
          (case (case strip_prefix (js ''www.'') r of
                   None \<Rightarrow> None
                 | Some r' \<Rightarrow> strip_prefix (js ''github.com/'') r') of
             Some rest \<Rightarrow> rest
           | None \<Rightarrow>
               (case strip_prefix (js ''github.com/'') r of
                  Some rest \<Rightarrow> rest
                | None \<Rightarrow> url)))"

definition ghPath :: "platform \<Rightarrow> item \<Rightarrow> jsstring" where
  "ghPath P it =
     (if githubUrl it = [] then []
      else (let p = strip_github_prefix (githubUrl it);
                p1 = (if p \<noteq> [] \<and> last p = 47 then butlast p else p)
            in toLowerCase P p1))"

text \<open>\<open>ghPath.split('/').pop()\<close>, the bare repository name.\<close>

definition repoName :: "platform \<Rightarrow> item \<Rightarrow> jsstring" where
  "repoName P it = last (split_on (\<lambda>c. c = 47) (ghPath P it))"

definition GENERIC_HOSTS :: "jsstring list" where
  "GENERIC_HOSTS = [js ''aibtc.com'', js ''github.com'', js ''stacks.co'', js ''bitcoin.org'']"

text \<open>The terms in the order \<open>getMatchTerms\<close> pushes them, rule by rule.\<close>

definition title_terms :: "platform \<Rightarrow> item \<Rightarrow> match_term list" where
  "title_terms P it =
     (let titleLower = toLowerCase P (title it)
      in (if titleLower \<noteq> [] then [\<lparr>t_text = titleLower, t_type = js ''title''\<rparr>] else [])
         @ map (\<lambda>p. \<lparr>t_text = p, t_type = js ''title''\<rparr>)
             (filter (\<lambda>p. p \<noteq> titleLower) (titleParts titleLower)))"

definition slug_terms :: "platform \<Rightarrow> item \<Rightarrow> match_term list" where
  "slug_terms P it =
     (let titleLower = toLowerCase P (title it)
      in map (\<lambda>p. \<lparr>t_text = slugify p, t_type = js ''slug''\<rparr>)
           (filter (\<lambda>p. length (slugify p) > 3 \<and> slugify p \<noteq> p)
              (titleLower # titleParts titleLower)))"

definition repo_name_terms :: "platform \<Rightarrow> item \<Rightarrow> match_term list" where
  "repo_name_terms P it =
     (if repoName P it \<noteq> [] \<and> length (repoName P it) \<ge> 8
      then \<lparr>t_text = repoName P it, t_type = js ''url''\<rparr>
           # (let repoSpaced = map (\<lambda>c. if c = 45 then 32 else c) (repoName P it)
              in if repoSpaced \<noteq> repoName P it then [\<lparr>t_text = repoSpaced, t_type = js ''url''\<rparr>]
                 else [])
      else [])"

definition github_terms :: "platform \<Rightarrow> item \<Rightarrow> match_term list" where
  "github_terms P it =
     (if ghPath P it \<noteq> []
      then [\<lparr>t_text = toLowerCase P (githubUrl it), t_type = js ''url''\<rparr>,
            \<lparr>t_text = ghPath P it, t_type = js ''url''\<rparr>] @ repo_name_terms P it
      else [])"

definition site_terms :: "platform \<Rightarrow> item \<Rightarrow> match_term list" where
  "site_terms P it =
     (case githubData it of
        None \<Rightarrow> []
      | Some gd \<Rightarrow>
          (case gd_homepage gd of
             None \<Rightarrow> []
           | Some homepage \<Rightarrow>
               if homepage = [] then []
               else (case new_URL P homepage of
                       None \<Rightarrow> []
                     | Some (hostname, pathname) \<Rightarrow>
                         (let host = toLowerCase P hostname
                          in if host \<notin> set GENERIC_HOSTS \<and> length host > 5
                             then [\<lparr>t_text = host, t_type = js ''site''\<rparr>] else []))))"

definition alias_terms :: "item \<Rightarrow> match_term list" where
  "alias_terms it =
     map (\<lambda>t. \<lparr>t_text = t, t_type = js ''alias''\<rparr>) (filter (\<lambda>t. length t > 2) (searchTerms it))"

text \<open>The final filter of \<open>getMatchTerms\<close>: a term is kept unless its text was seen before.\<close>

fun dedupe_terms :: "jsstring list \<Rightarrow> match_term list \<Rightarrow> match_term list" where
  "dedupe_terms seen [] = []"
| "dedupe_terms seen (t # ts) =
     (if t_text t \<in> set seen then dedupe_terms seen ts
      else t # dedupe_terms (t_text t # seen) ts)"

definition getMatchTerms :: "platform \<Rightarrow> item \<Rightarrow> match_term list" where
  "getMatchTerms P it =
     dedupe_terms []
       (title_terms P it @ slug_terms P it @ github_terms P it @ site_terms P it @ alias_terms it)"

text \<open>\<open>matchMention\<close>: the type of the first term the preview contains, or \<open>null\<close>.\<close>

definition matchMention :: "platform \<Rightarrow> jsstring \<Rightarrow> item \<Rightarrow> jsstring option" where
  "matchMention P preview it =
     map_option t_type (find (\<lambda>t. str_includes preview (t_text t)) (getMatchTerms P it))"

text \<open>Two items of the repository \<open>aibtcdev/skills\<close>, one titled after it.\<close>

definition skills_item :: item where
  "skills_item = item0\<lparr>item_id := js ''r_7'', title := js ''Skills'',
                        githubUrl := js ''https://github.com/aibtcdev/skills''\<rparr>"

definition library_item :: item where
  "library_item = item0\<lparr>item_id := js ''r_8'', title := js ''Skills Library'',
                        githubUrl := js ''https://github.com/aibtcdev/skills''\<rparr>"

section \<open>Scanning the activity feed for mentions\<close>

record activity_event =
  e_type :: "jsstring option"
  e_timestamp :: "int option"
  e_messagePreview :: "jsstring option"
  e_agent :: "agent option"
  e_recipient :: "agent option"

record archived_message =
  a_timestamp :: int
  a_agent :: "agent option"
  a_recipient :: "agent option"
  a_messagePreview :: "jsstring option"

record scan_meta =
  lastScanAt :: "int option"
  processedIds :: "int option list"

record mention_event =
  me_itemId :: jsstring
  me_itemTitle :: jsstring
  me_agent :: "agent option"
  me_recipient :: "agent option"
  me_messagePreview :: "jsstring option"
  me_matchType :: jsstring

text \<open>
  The per-repository bookkeeping of the GitHub scans, as far as website discovery reads
  and writes it: the time of the last website scan and the count of failures in a row.
\<close>

record repo_state =
  rs_website :: "int option"
  rs_websiteFails :: "nat option"

record scan_state =
  websiteFilterVersion :: "nat option"
  repos :: "jsstring \<Rightarrow> repo_state option"

text \<open>
  The keys of the KV namespace the scans touch: the registry (with the other writers of
  its world), the mention-scan bookkeeping, the message archive and the GitHub-scan
  bookkeeping.
\<close>

record kv =
  kv_world :: world
  kv_mention_scan :: "scan_meta option"
  kv_archive :: "archived_message list"
  kv_github_scan :: "scan_state option"


definition MAX_ARCHIVED_MESSAGES :: nat where
  "MAX_ARCHIVED_MESSAGES = 2000"

text \<open>The \<open>{ btcAddress, displayName }\<close> copy of an agent kept in the archive.\<close>

definition agent_brief :: "agent option \<Rightarrow> agent option" where
  "agent_brief a = map_option (\<lambda>x. \<lparr>btcAddress = btcAddress x, displayName = displayName x, agentId = None\<rparr>) a"

text \<open>
  The loop of \<open>archiveMessages\<close>: \<open>timestamps\<close> is the set of time stamps present, \<open>existing\<close>
  grows at its end, \<open>added\<close> counts.
\<close>

fun archive_loop :: "activity_event list \<Rightarrow> int list \<Rightarrow> archived_message list \<Rightarrow> nat
    \<Rightarrow> archived_message list \<times> nat" where
  "archive_loop [] timestamps existing added = (existing, added)"
| "archive_loop (ev # evs) timestamps existing added =
     (case e_timestamp ev of
        None \<Rightarrow> archive_loop evs timestamps existing added
      | Some ts \<Rightarrow>
          if ts \<in> set timestamps then archive_loop evs timestamps existing added
          else archive_loop evs (ts # timestamps)
                 (existing @ [\<lparr>a_timestamp = ts, a_agent = agent_brief (e_agent ev),
                                a_recipient = agent_brief (e_recipient ev),
                                a_messagePreview = (if truthy (e_messagePreview ev)
                                                    then e_messagePreview ev else None)\<rparr>])
                 (added + 1))"


text \<open>
  \<open>existing.sort((a, b) => b.timestamp.localeCompare(a.timestamp))\<close>: newest first, and
  stable, as the sort of an array is.
\<close>

definition sort_newest_first :: "archived_message list \<Rightarrow> archived_message list" where
  "sort_newest_first ms = sort_key (\<lambda>m. - a_timestamp m) ms"

definition archiveMessages :: "activity_event list \<Rightarrow> archived_message list \<Rightarrow> archived_message list" where
  "archiveMessages messageEvents archive =
     (if messageEvents = [] then archive
      else (let (existing, added) = archive_loop messageEvents (map a_timestamp archive) archive 0
            in if added > 0 then take MAX_ARCHIVED_MESSAGES (sort_newest_first existing)
               else archive))"



text \<open>One event against one item: the inner body of the scan loop.\<close>

definition mention_item :: "platform \<Rightarrow> activity_event \<Rightarrow> item \<Rightarrow> item \<times> mention_event list" where
  "mention_item P ev it =
     (let preview = toLowerCase P (case e_messagePreview ev of None \<Rightarrow> [] | Some p \<Rightarrow> p);
          matchResult = matchMention P preview it
      in if truthy matchResult then
           (let it1 = it\<lparr>mentions := Some ((case mentions it of None \<Rightarrow> 0 | Some c \<Rightarrow> c) + 1)\<rparr>;
                it2 = (case e_agent ev of
                         None \<Rightarrow> it1
                       | Some a \<Rightarrow>
                           if btcAddress a \<noteq> []
                           then addContributor it1 \<lparr>btcAddress = btcAddress a,
                                                     displayName = displayName a, agentId = None\<rparr>
                           else it1)
            in (it2, [\<lparr>me_itemId = item_id it, me_itemTitle = title it, me_agent = e_agent ev,
                        me_recipient = e_recipient ev,
                        me_messagePreview = (if truthy (e_messagePreview ev)
                                             then e_messagePreview ev else None),
                        me_matchType = (case matchResult of None \<Rightarrow> [] | Some t \<Rightarrow> t)\<rparr>]))
         else (it, []))"





text \<open>The zeroing of the counters at the start of a reset scan.\<close>

definition zero_mentions :: "item \<Rightarrow> item" where
  "zero_mentions it = (case mentions it of None \<Rightarrow> it | Some c \<Rightarrow> it\<lparr>mentions := Some 0\<rparr>)"













section \<open>Website discovery\<close>

subsection \<open>Scoring a URL\<close>

definition NOISE_HOSTS :: "jsstring list" where
  "NOISE_HOSTS =
     [js ''github.com'', js ''www.github.com'', js ''docs.github.com'',
      js ''raw.githubusercontent.com'', js ''user-images.githubusercontent.com'',
      js ''avatars.githubusercontent.com'', js ''camo.githubusercontent.com'',
      js ''npmjs.com'', js ''www.npmjs.com'',
      js ''shields.io'', js ''img.shields.io'', js ''badge.fury.io'',
      js ''coveralls.io'', js ''codecov.io'',
      js ''travis-ci.org'', js ''travis-ci.com'', js ''circleci.com'',
      js ''david-dm.org'', js ''gitter.im'',
      js ''localhost'', js ''example.com'',
      js ''crates.io'', js ''pypi.org'', js ''rubygems.org'',
      js ''bun.sh'', js ''bun.com'', js ''deno.land'', js ''deno.com'', js ''nodejs.org'']"

definition is_word_char :: "nat \<Rightarrow> bool" where
  "is_word_char c \<longleftrightarrow>
     (48 \<le> c \<and> c \<le> 57) \<or> (65 \<le> c \<and> c \<le> 90) \<or> c = 95 \<or> (97 \<le> c \<and> c \<le> 122)"

text \<open>\<open>NOISE_PATHS\<close>: \<open>/^\/agents\//\<close>, \<open>/^\/api\//\<close>, \<open>/^\/install\b/\<close>, \<open>/^\/raw\//\<close>.\<close>

definition noise_path :: "jsstring \<Rightarrow> bool" where
  "noise_path pathname \<longleftrightarrow>
     starts_with pathname (js ''/agents/'')
     \<or> starts_with pathname (js ''/api/'')
     \<or> (starts_with pathname (js ''/install'')
        \<and> (case drop 8 pathname of [] \<Rightarrow> True | c # cs \<Rightarrow> \<not> is_word_char c))
     \<or> starts_with pathname (js ''/raw/'')"

definition isDeploymentUrl :: "platform \<Rightarrow> jsstring \<Rightarrow> nat" where
  "isDeploymentUrl P url =
     (case new_URL P url of
        None \<Rightarrow> 0
      | Some (hostname, pathname) \<Rightarrow>
          (let host = toLowerCase P hostname in
           if host \<in> set NOISE_HOSTS then 0
           else if noise_path pathname then 0
           else if ends_with host (js ''.pages.dev'') then 10
           else if ends_with host (js ''.vercel.app'') then 10
           else if ends_with host (js ''.netlify.app'') then 10
           else if ends_with host (js ''.workers.dev'') then 9
           else if ends_with host (js ''.herokuapp.com'') then 8
           else if ends_with host (js ''.fly.dev'') then 8
           else if ends_with host (js ''.web.app'') \<or> ends_with host (js ''.firebaseapp.com'') then 8
           else if ends_with host (js ''.onrender.com'') then 8
           else if ends_with host (js ''.surge.sh'') then 7
           else if ends_with host (js ''.github.io'') then 7
           else if \<not> str_includes host (js ''github'') \<and> \<not> str_includes host (js ''npm'') then 6
           else 0))"

definition SELF_HOSTS :: "jsstring list" where
  "SELF_HOSTS = [js ''aibtc-projects.pages.dev'']"

text \<open>\<open>try { if (SELF_HOSTS.has(new URL(url).hostname.toLowerCase())) continue; } catch {}\<close>\<close>

definition is_self_host :: "platform \<Rightarrow> jsstring \<Rightarrow> bool" where
  "is_self_host P url =
     (case new_URL P url of None \<Rightarrow> False | Some (hostname, pathname) \<Rightarrow> toLowerCase P hostname \<in> set SELF_HOSTS)"

subsection \<open>URLs in a text\<close>

text \<open>
  \<open>text.match(/https?:\/\/[^\s<>\[\]()'"`,;]+/gi)\<close>: the code units a URL may go on with,
  a match at the start of a text, and all matches from left to right, each stripped of
  its trailing dots and closing parentheses.
\<close>

definition url_char :: "nat \<Rightarrow> bool" where
  "url_char c \<longleftrightarrow> \<not> is_space c \<and> c \<notin> {60, 62, 91, 93, 40, 41, 39, 34, 96, 44, 59}"

definition url_at :: "jsstring \<Rightarrow> jsstring option" where
  "url_at s =
     (let n = (if ascii_lower (take 8 s) = js ''https://'' then 8
               else if ascii_lower (take 7 s) = js ''http://'' then 7 else 0);
          body = takeWhile url_char (drop n s)
      in if n = 0 \<or> body = [] then None else Some (take n s @ body))"

fun url_matches :: "nat \<Rightarrow> jsstring \<Rightarrow> jsstring list" where
  "url_matches skip [] = []"
| "url_matches skip (c # cs) =
     (if skip > 0 then url_matches (skip - 1) cs
      else (case url_at (c # cs) of
              Some u \<Rightarrow> u # url_matches (length u - 1) cs
            | None \<Rightarrow> url_matches 0 cs))"

definition strip_trailing :: "jsstring \<Rightarrow> jsstring" where
  "strip_trailing u = rev (dropWhile (\<lambda>c. c = 46 \<or> c = 41) (rev u))"

definition extractUrlsFromText :: "jsstring option \<Rightarrow> jsstring list" where
  "extractUrlsFromText text =
     (case text of None \<Rightarrow> [] | Some t \<Rightarrow> map strip_trailing (url_matches 0 t))"

subsection \<open>Keywords near a URL\<close>

definition URL_CONTEXT_KEYWORDS :: "jsstring list" where
  "URL_CONTEXT_KEYWORDS =
     [js ''live'', js ''demo'', js ''website'', js ''deployed'', js ''homepage'', js ''visit'',
      js ''hosted'', js ''app'', js ''try it'', js ''production'', js ''dashboard'']"

definition URL_NEGATIVE_KEYWORDS :: "jsstring list" where
  "URL_NEGATIVE_KEYWORDS =
     [js ''built by'', js ''created by'', js ''credits'', js ''author'', js ''maintained by'',
      js ''made by'', js ''powered by'']"

text \<open>
  \<open>/\b(k1|k2|...)\b/i.test(ctx)\<close> for keywords that begin and end with a word character:
  some keyword occurs, in any letter case, with no word character right before it and
  none right after it.
\<close>

fun keyword_scan :: "jsstring list \<Rightarrow> bool \<Rightarrow> jsstring \<Rightarrow> bool" where
  "keyword_scan kws prev_word [] = False"
| "keyword_scan kws prev_word (c # cs) =
     ((\<not> prev_word
       \<and> list_ex (\<lambda>k. ascii_lower (take (length k) (c # cs)) = k
                      \<and> (case drop (length k) (c # cs) of [] \<Rightarrow> True | n # ns \<Rightarrow> \<not> is_word_char n))
            kws)
      \<or> keyword_scan kws (is_word_char c) cs)"

definition keyword_test :: "jsstring list \<Rightarrow> jsstring \<Rightarrow> bool" where
  "keyword_test kws ctx = keyword_scan kws False ctx"

text \<open>\<open>content.indexOf(url)\<close>\<close>

fun indexOf :: "jsstring \<Rightarrow> jsstring \<Rightarrow> nat option" where
  "indexOf [] needle = (if needle = [] then Some 0 else None)"
| "indexOf (c # cs) needle =
     (if starts_with (c # cs) needle then Some 0 else map_option Suc (indexOf cs needle))"

subsection \<open>The candidate of each source\<close>

text \<open>The first URL of the highest score: the head of the stable sort by falling score.\<close>

definition best_scored :: "(jsstring \<times> int) list \<Rightarrow> jsstring option" where
  "best_scored scored =
     (case sort_key (\<lambda>(u, s). - s) scored of [] \<Rightarrow> None | (u, s) # rest \<Rightarrow> Some u)"

definition scored_urls :: "platform \<Rightarrow> jsstring set \<Rightarrow> jsstring list \<Rightarrow> (jsstring \<times> int) list" where
  "scored_urls P skipUrls urls =
     filter (\<lambda>(u, s). s > 0 \<and> u \<notin> skipUrls) (map (\<lambda>u. (u, int (isDeploymentUrl P u))) urls)"

definition extractUrlFromDescription :: "platform \<Rightarrow> jsstring option \<Rightarrow> jsstring set \<Rightarrow> jsstring option" where
  "extractUrlFromDescription P description skipUrls =
     (if \<not> truthy description then None
      else best_scored (scored_urls P skipUrls (extractUrlsFromText description)))"

definition context_adjust :: "jsstring \<Rightarrow> jsstring \<times> int \<Rightarrow> jsstring \<times> int" where
  "context_adjust content us =
     (case us of (u, s) \<Rightarrow>
        (case indexOf content u of
           None \<Rightarrow> (u, s)
         | Some idx \<Rightarrow>
             (let ctx = drop (idx - 200) (take idx content);
                  s1 = (if keyword_test URL_CONTEXT_KEYWORDS ctx then s + 5 else s);
                  s2 = (if keyword_test URL_NEGATIVE_KEYWORDS ctx then s1 - 4 else s1)
              in (u, s2))))"

definition extractUrlFromReadme :: "platform \<Rightarrow> jsstring \<Rightarrow> jsstring set \<Rightarrow> jsstring option" where
  "extractUrlFromReadme P content skipUrls =
     (if content = [] then None
      else
        (let scored = scored_urls P skipUrls (extractUrlsFromText (Some content))
         in best_scored (filter (\<lambda>(u, s). s \<ge> 5) (map (context_adjust content) scored))))"

text \<open>
  \<open>extractUrlFromMessages\<close>: the URLs of the archived messages that mention the item,
  counted in a \<open>Map\<close>, and the most frequent of them, the score breaking ties.
\<close>

definition count_url :: "jsstring \<Rightarrow> (jsstring, nat) jsmap \<Rightarrow> (jsstring, nat) jsmap" where
  "count_url u m = map_set u ((case map_of m u of None \<Rightarrow> 0 | Some c \<Rightarrow> c) + 1) m"

definition message_urls :: "platform \<Rightarrow> item \<Rightarrow> archived_message \<Rightarrow> jsstring list" where
  "message_urls P it msg =
     (let text = (case a_messagePreview msg of None \<Rightarrow> [] | Some p \<Rightarrow> p)
      in if \<not> truthy (matchMention P (toLowerCase P text) it) then []
         else filter (\<lambda>u. isDeploymentUrl P u \<noteq> 0 \<and> \<not> is_self_host P u)
                (extractUrlsFromText (if text = [] then None else Some text)))"

definition pick_best :: "platform \<Rightarrow> (jsstring, nat) jsmap \<Rightarrow> jsstring option" where
  "pick_best P urlCounts =
     fst (foldl (\<lambda>(best, bestCount) (u, c).
                   if c > bestCount
                      \<or> (c = bestCount
                         \<and> isDeploymentUrl P u > (case best of None \<Rightarrow> 0 | Some b \<Rightarrow> isDeploymentUrl P b))
                   then (Some u, c) else (best, bestCount))
                (None, 0) urlCounts)"

definition extractUrlFromMessages :: "platform \<Rightarrow> archived_message list \<Rightarrow> item \<Rightarrow> jsstring option" where
  "extractUrlFromMessages P messages it =
     (if messages = [] then None
      else pick_best P (foldl (\<lambda>m u. count_url u m) [] (concat (map (message_urls P it) messages))))"

subsection \<open>Parsing a GitHub URL\<close>

datatype gh_type = GhRepo | GhPr | GhIssue

record parsed_url =
  p_owner :: jsstring
  p_repo :: jsstring
  p_type :: gh_type

text \<open>
  After \<open>github.com/\<close>: the tail of \<open>/github\.com\/([^/]+)\/([^/]+)\/(issues|pull)\/(\d+)/\<close>
  and the tail of \<open>/github\.com\/([^/]+)\/([^/?#]+)/\<close>.
\<close>

definition issue_or_pull_tail :: "jsstring \<Rightarrow> parsed_url option" where
  "issue_or_pull_tail s =
     (let owner = takeWhile (\<lambda>c. c \<noteq> 47) s;
          r1 = drop (length owner) s
      in if owner = [] \<or> r1 = [] then None
         else
           (let repo = takeWhile (\<lambda>c. c \<noteq> 47) (tl r1);
                r2 = drop (length repo) (tl r1)
            in if repo = [] \<or> r2 = [] then None
               else
                 (let r3 = tl r2;
                      kind = (if starts_with r3 (js ''issues/'') then Some (GhIssue, drop 7 r3)
                              else if starts_with r3 (js ''pull/'') then Some (GhPr, drop 5 r3)
                              else None)
                  in case kind of
                       None \<Rightarrow> None
                     | Some (ty, r4) \<Rightarrow>
                         (case r4 of
                            [] \<Rightarrow> None
                          | c # cs \<Rightarrow> if 48 \<le> c \<and> c \<le> 57
                                      then Some \<lparr>p_owner = owner, p_repo = repo, p_type = ty\<rparr>
                                      else None))))"

definition repo_tail :: "jsstring \<Rightarrow> parsed_url option" where
  "repo_tail s =
     (let owner = takeWhile (\<lambda>c. c \<noteq> 47) s;
          r1 = drop (length owner) s
      in if owner = [] \<or> r1 = [] then None
         else
           (let repo = takeWhile (\<lambda>c. c \<noteq> 47 \<and> c \<noteq> 63 \<and> c \<noteq> 35) (tl r1)
            in if repo = [] then None
               else Some \<lparr>p_owner = owner, p_repo = repo, p_type = GhRepo\<rparr>))"

text \<open>The leftmost place where \<open>github.com/\<close> is followed by a tail that matches.\<close>

fun first_github_match :: "(jsstring \<Rightarrow> parsed_url option) \<Rightarrow> jsstring \<Rightarrow> parsed_url option" where
  "first_github_match tail [] = None"
| "first_github_match tail (c # cs) =
     (case (if starts_with (c # cs) (js ''github.com/'') then tail (drop 11 (c # cs)) else None) of
        Some p \<Rightarrow> Some p
      | None \<Rightarrow> first_github_match tail cs)"

definition parseGithubUrl :: "jsstring \<Rightarrow> parsed_url option" where
  "parseGithubUrl url =
     (if url = [] then None
      else (case first_github_match issue_or_pull_tail url of
              Some p \<Rightarrow> Some p
            | None \<Rightarrow> first_github_match repo_tail url))"

subsection \<open>The discovery loop\<close>

datatype readme_fetch = ReadmeOk jsstring | ReadmeNotOk | ReadmeThrows

definition WEBSITE_SCAN_COOLDOWN_MS :: int where
  "WEBSITE_SCAN_COOLDOWN_MS = 60 * 60 * 1000"

record discover_state =
  ds_items :: "item list"
  ds_claimed :: "jsstring set"
  ds_repos :: "jsstring \<Rightarrow> repo_state option"
  ds_changed :: bool
  ds_discovered :: nat
  ds_scanned :: "jsstring list"
  ds_errors :: "jsstring list"

definition homepage_of :: "item \<Rightarrow> jsstring option" where
  "homepage_of it = (case githubData it of None \<Rightarrow> None | Some gd \<Rightarrow> gd_homepage gd)"

text \<open>A homepage-sourced claim is kept in step with the repository's homepage.\<close>

definition sync_homepage :: "int \<Rightarrow> item \<Rightarrow> item \<times> bool" where
  "sync_homepage now it =
     (case website it of
        None \<Rightarrow> (it, False)
      | Some w \<Rightarrow>
          (case homepage_of it of
             None \<Rightarrow> (it, False)
           | Some h \<Rightarrow>
               if w_source w = js ''homepage'' \<and> h \<noteq> [] \<and> w_url w \<noteq> h
               then (it\<lparr>website := Some (w\<lparr>w_url := h, w_discoveredAt := now\<rparr>)\<rparr>, True)
               else (it, False)))"

text \<open>
  \<open>shouldClear\<close> for the item at index \<open>i\<close> of the item list as it stands: the claim
  scores zero, or it is not homepage-sourced and another item holds the URL as its
  homepage claim.
\<close>

definition should_clear :: "platform \<Rightarrow> item list \<Rightarrow> nat \<Rightarrow> bool" where
  "should_clear P its i =
     (case website (its ! i) of
        None \<Rightarrow> False
      | Some w \<Rightarrow>
          isDeploymentUrl P (w_url w) = 0
          \<or> (w_source w \<noteq> js ''homepage''
             \<and> list_ex (\<lambda>j. j \<noteq> i
                           \<and> (case website (its ! j) of
                                None \<Rightarrow> False
                              | Some ow \<Rightarrow> w_url ow = w_url w \<and> w_source ow = js ''homepage''))
                  [0..<length its]))"

definition repoPath_of :: "parsed_url \<Rightarrow> jsstring" where
  "repoPath_of p = p_owner p @ js ''/'' @ p_repo p"

text \<open>\<open>delete scanState.repos[rp].website\<close>, when the repository has an entry.\<close>

definition reset_cooldown :: "jsstring \<Rightarrow> (jsstring \<Rightarrow> repo_state option) \<Rightarrow> (jsstring \<Rightarrow> repo_state option)" where
  "reset_cooldown url rs =
     (case parseGithubUrl url of
        None \<Rightarrow> rs
      | Some p \<Rightarrow>
          (case rs (repoPath_of p) of
             None \<Rightarrow> rs
           | Some r \<Rightarrow> rs(repoPath_of p \<mapsto> r\<lparr>rs_website := None\<rparr>)))"

text \<open>
  The five sources in their order of priority. The result is the URL and its source tag,
  if any; \<open>None\<close> at the top when the README request throws.
\<close>

definition first_deliverable :: "platform \<Rightarrow> deliverable list \<Rightarrow> jsstring option" where
  "first_deliverable P ds =
     map_option d_url
       (find (\<lambda>d. d_url d \<noteq> [] \<and> isDeploymentUrl P (d_url d) \<noteq> 0 \<and> \<not> is_self_host P (d_url d)) ds)"

definition find_candidate ::
    "platform \<Rightarrow> (jsstring \<Rightarrow> readme_fetch) \<Rightarrow> archived_message list \<Rightarrow> jsstring set
     \<Rightarrow> jsstring \<Rightarrow> item \<Rightarrow> (jsstring \<times> jsstring) option option" where
  "find_candidate P readme archive claimedUrls repoPath it =
     (let p1 = (case homepage_of it of
                  None \<Rightarrow> None
                | Some h \<Rightarrow> if h \<noteq> [] \<and> isDeploymentUrl P h > 0 then Some (h, js ''homepage'')
                            else None);
          p2 = (case p1 of
                  Some c \<Rightarrow> Some c
                | None \<Rightarrow>
                    map_option (\<lambda>u. (u, js ''description''))
                      (extractUrlFromDescription P
                         (case githubData it of None \<Rightarrow> None | Some gd \<Rightarrow> gd_title gd) claimedUrls));
          p3 = (case p2 of
                  Some c \<Rightarrow> Some (Some c)
                | None \<Rightarrow>
                    (case readme repoPath of
                       ReadmeThrows \<Rightarrow> None
                     | ReadmeNotOk \<Rightarrow> Some None
                     | ReadmeOk text \<Rightarrow>
                         Some (map_option (\<lambda>u. (u, js ''readme''))
                                 (extractUrlFromReadme P text claimedUrls))))
      in case p3 of
           None \<Rightarrow> None
         | Some (Some c) \<Rightarrow> Some (Some c)
         | Some None \<Rightarrow>
             (case first_deliverable P (deliverables it) of
                Some u \<Rightarrow> Some (Some (u, js ''deliverable''))
              | None \<Rightarrow>
                  Some (map_option (\<lambda>u. (u, js ''message''))
                          (extractUrlFromMessages P archive it))))"

text \<open>
  The part of a turn after the re-validation, for an item without a claim: the guards,
  the search, the arbitration against \<open>claimedUrls\<close> and the bookkeeping.
\<close>

definition discover_for ::
    "platform \<Rightarrow> int \<Rightarrow> (jsstring \<Rightarrow> readme_fetch) \<Rightarrow> archived_message list \<Rightarrow> nat
     \<Rightarrow> discover_state \<Rightarrow> discover_state" where
  "discover_for P now readme archive i st =
     (let it = ds_items st ! i in
      case parseGithubUrl (githubUrl it) of
        None \<Rightarrow> st
      | Some parsed \<Rightarrow>
          if p_type parsed \<noteq> GhRepo then st
          else if (case githubData it of None \<Rightarrow> False | Some gd \<Rightarrow> gd_state gd = Some (js ''archived''))
          then st
          else
            (let repoPath = repoPath_of parsed;
                 repoState = (case ds_repos st repoPath of
                                None \<Rightarrow> \<lparr>rs_website = None, rs_websiteFails = None\<rparr>
                              | Some r \<Rightarrow> r);
                 lastScan = (case rs_website repoState of None \<Rightarrow> 0 | Some t \<Rightarrow> t);
                 fails = (case rs_websiteFails repoState of None \<Rightarrow> 0 | Some n \<Rightarrow> n);
                 cooldown = (if fails \<ge> 3 then 6 * 60 * 60 * 1000 else WEBSITE_SCAN_COOLDOWN_MS)
             in if now - lastScan < cooldown then st
                else
                  (case find_candidate P readme archive (ds_claimed st) repoPath it of
                     None \<Rightarrow>
                       st\<lparr>ds_errors := ds_errors st @ [repoPath @ js '': README fetch failed''],
                          ds_repos := (ds_repos st)(repoPath \<mapsto>
                             repoState\<lparr>rs_website := Some now, rs_websiteFails := Some (fails + 1)\<rparr>)\<rparr>
                   | Some cand \<Rightarrow>
                       (let cand1 = (case cand of
                                       None \<Rightarrow> None
                                     | Some (url, source) \<Rightarrow>
                                         if url \<in> ds_claimed st then None else Some (url, source));
                            st1 = (case cand1 of
                                     None \<Rightarrow> st
                                   | Some (url, source) \<Rightarrow>
                                       st\<lparr>ds_items := (ds_items st)[i :=
                                             it\<lparr>website := Some \<lparr>w_url = url, w_source = source,
                                                                  w_discoveredAt = now\<rparr>,
                                                updatedAt := now\<rparr>],
                                          ds_claimed := insert url (ds_claimed st),
                                          ds_changed := True,
                                          ds_discovered := ds_discovered st + 1\<rparr>)
                        in st1\<lparr>ds_repos := (ds_repos st1)(repoPath \<mapsto>
                                    repoState\<lparr>rs_website := Some now, rs_websiteFails := Some 0\<rparr>),
                               ds_scanned := ds_scanned st1 @ [repoPath]\<rparr>))))"

text \<open>One turn of the loop of \<open>discoverWebsites\<close>, for the item at index \<open>i\<close>.\<close>

definition discover_step ::
    "platform \<Rightarrow> int \<Rightarrow> (jsstring \<Rightarrow> readme_fetch) \<Rightarrow> archived_message list \<Rightarrow> nat
     \<Rightarrow> discover_state \<Rightarrow> discover_state" where
  "discover_step P now readme archive i st =
     (let (it1, synced) = sync_homepage now (ds_items st ! i);
          st1 = st\<lparr>ds_items := (ds_items st)[i := it1], ds_changed := (ds_changed st \<or> synced)\<rparr>;
          st2 = (if should_clear P (ds_items st1) i
                 then st1\<lparr>ds_claimed := ds_claimed st1
                                          - {case website it1 of None \<Rightarrow> [] | Some w \<Rightarrow> w_url w},
                          ds_items := (ds_items st1)[i := it1\<lparr>website := None\<rparr>],
                          ds_changed := True,
                          ds_repos := reset_cooldown (githubUrl it1) (ds_repos st1)\<rparr>
                 else st1)
      in if website (ds_items st2 ! i) \<noteq> None then st2
         else discover_for P now readme archive i st2)"

datatype discover_result = Discovered nat nat "jsstring list"

text \<open>
  \<open>discoverWebsites\<close>: the bookkeeping with its one-time reset, the load, the set of
  claimed URLs, the loop, the retrying save when something changed and the write of the
  bookkeeping. \<open>readme\<close> is the outcome of the README request for a repository.
\<close>

definition discoverWebsites ::
    "platform \<Rightarrow> int \<Rightarrow> (jsstring \<Rightarrow> readme_fetch) \<Rightarrow> kv \<Rightarrow> (error + discover_result) \<times> kv" where
  "discoverWebsites P now readme k =
     (let scanState0 = (case kv_github_scan k of
                          None \<Rightarrow> \<lparr>websiteFilterVersion = None, repos = (\<lambda>rp. None)\<rparr>
                        | Some s \<Rightarrow> s);
          scanState = (if (case websiteFilterVersion scanState0 of None \<Rightarrow> True | Some v \<Rightarrow> v < 5)
                       then \<lparr>websiteFilterVersion = Some 5,
                             repos = (\<lambda>rp. map_option
                                        (\<lambda>r. r\<lparr>rs_website := None, rs_websiteFails := None\<rparr>)
                                        (repos scanState0 rp))\<rparr>
                       else scanState0)
      in case kv_get (kv_world k) of
           (Inl e, w1) \<Rightarrow> (Inl e, k\<lparr>kv_world := w1\<rparr>)
         | (Inr raw, w1) \<Rightarrow>
             (let d = getData raw;
                  claimedUrls = set (concat (map (\<lambda>it. case website it of
                                                         None \<Rightarrow> []
                                                       | Some w \<Rightarrow> if w_url w \<noteq> [] then [w_url w] else [])
                                               (items d)));
                  st0 = \<lparr>ds_items = items d, ds_claimed = claimedUrls, ds_repos = repos scanState,
                         ds_changed = False, ds_discovered = 0, ds_scanned = [], ds_errors = []\<rparr>;
                  st = foldl (\<lambda>s i. discover_step P now readme (kv_archive k) i s) st0
                         [0..<length (items d)];
                  scanState' = scanState\<lparr>repos := ds_repos st\<rparr>;
                  result = Discovered (length (ds_scanned st)) (ds_discovered st) (ds_errors st)
              in if ds_changed st then
                   (case saveRetry now (d\<lparr>items := ds_items st\<rparr>) w1 of
                      (Inl e, w2) \<Rightarrow> (Inl e, k\<lparr>kv_world := w2\<rparr>)
                    | (Inr d', w2) \<Rightarrow> (Inr result, k\<lparr>kv_world := w2, kv_github_scan := Some scanState'\<rparr>))
                 else (Inr result, k\<lparr>kv_world := w1, kv_github_scan := Some scanState'\<rparr>)))"

text \<open>
  A platform for the examples, whose strings are ASCII strings and whose URLs are plain
  \<open>http(s)://host/path\<close> URLs (no port, no user information, no escapes): on these the URL
  parser and the lower-casing below are the platform's.
\<close>

definition plain_url_parser :: url_parser where
  "plain_url_parser u =
     (let n = (if ascii_lower (take 8 u) = js ''https://'' then 8
               else if ascii_lower (take 7 u) = js ''http://'' then 7 else 0);
          host = takeWhile (\<lambda>c. c \<noteq> 47 \<and> c \<noteq> 63 \<and> c \<noteq> 35) (drop n u);
          path = takeWhile (\<lambda>c. c \<noteq> 63 \<and> c \<noteq> 35) (drop (n + length host) u)
      in if n = 0 \<or> host = [] then None
         else Some (ascii_lower host, if path = [] then js ''/'' else path))"

definition plain_platform :: platform where
  "plain_platform = \<lparr>new_URL = plain_url_parser, toLowerCase = ascii_lower\<rparr>"

text \<open>
  Two projects. The first holds \<open>https://myapp.pages.dev\<close>, found in its README; the
  second holds its former homepage as a homepage claim, and its repository now declares
  \<open>https://myapp.pages.dev\<close> as homepage.
\<close>

definition app_item :: item where
  "app_item = item0\<lparr>item_id := js ''r_1'', title := js ''My App'',
                     githubUrl := js ''https://github.com/o/app'',
                     website := Some \<lparr>w_url = js ''https://myapp.pages.dev'',
                                      w_source = js ''readme'', w_discoveredAt = 1\<rparr>\<rparr>"

definition fork_item :: item where
  "fork_item = item0\<lparr>item_id := js ''r_2'', title := js ''My App Fork'',
                      githubUrl := js ''https://github.com/o/fork'',
                      githubData := Some (githubData0\<lparr>gd_type := Some (js ''repo''),
                                                      gd_state := Some (js ''active''),
                                                      gd_homepage := Some (js ''https://myapp.pages.dev'')\<rparr>),
                      website := Some \<lparr>w_url = js ''https://old.pages.dev'',
                                       w_source = js ''homepage'', w_discoveredAt = 1\<rparr>\<rparr>"

definition two_project_kv :: kv where
  "two_project_kv =
     \<lparr>kv_world = \<lparr>stored = Some (reg0\<lparr>items := [app_item, fork_item]\<rparr>),
                   pending = [], slept = [], puts = []\<rparr>,
      kv_mention_scan = None, kv_archive = [], kv_github_scan = None\<rparr>"

text \<open>The second project after the homepage sync of a run at time 5000000.\<close>

definition fork_synced :: item where
  "fork_synced = fork_item\<lparr>website := Some \<lparr>w_url = js ''https://myapp.pages.dev'',
                                              w_source = js ''homepage'', w_discoveredAt = 5000000\<rparr>\<rparr>"

section \<open>Facts about strings\<close>

lemma js_eq_iff [simp]: "js a = js b \<longleftrightarrow> a = b"
  unfolding js_def by (simp add: inj_map_eq_map inj_on_def)

lemma js_Nil_iff [simp]: "js a = [] \<longleftrightarrow> a = []"
  by (simp add: js_def)

lemma length_js [simp]: "length (js s) = length s"
  by (simp add: js_def)

lemma plain_platform_simps [simp]:
  "new_URL plain_platform = plain_url_parser" "toLowerCase plain_platform = ascii_lower"
  by (simp_all add: plain_platform_def)

section \<open>Status derivation: the rules\<close>

text \<open>
  C1. \<open>deriveStatus\<close> is a total function of the snapshot's type, state and merged flag
  alone: whatever the rest of the item and of the snapshot holds, the status is the same.
  It is \<open>'todo'\<close> when the snapshot is absent or has no type; for a repository \<open>'done'\<close> when archived and
  \<open>'in-progress'\<close> otherwise; for a pull request \<open>'done'\<close> when merged, else \<open>'blocked'\<close>
  when closed, else \<open>'in-progress'\<close>; for an issue \<open>'done'\<close> when closed and
  \<open>'in-progress'\<close> otherwise. It never yields \<open>'shipped'\<close> or \<open>'paid'\<close>.
\<close>

theorem deriveStatus_rules:
  "deriveStatus (a\<lparr>githubData := Some g\<rparr>)
     = deriveStatus (b\<lparr>githubData := Some (g\<lparr>gd_title := t, gd_homepage := h,
                                                   gd_fetchedAt := f, gd_notFoundCount := n\<rparr>)\<rparr>)
   \<and> deriveStatus (a\<lparr>githubData := None\<rparr>) = js ''todo''
   \<and> deriveStatus (a\<lparr>githubData := Some (g\<lparr>gd_type := None\<rparr>)\<rparr>) = js ''todo''
   \<and> deriveStatus (a\<lparr>githubData := Some (g\<lparr>gd_type := Some []\<rparr>)\<rparr>) = js ''todo''
   \<and> deriveStatus (a\<lparr>githubData := Some (g\<lparr>gd_type := Some (js ''repo'')\<rparr>)\<rparr>)
       = (if gd_state g = Some (js ''archived'') then js ''done'' else js ''in-progress'')
   \<and> deriveStatus (a\<lparr>githubData := Some (g\<lparr>gd_type := Some (js ''pr'')\<rparr>)\<rparr>)
       = (if gd_merged g then js ''done''
          else if gd_state g = Some (js ''closed'') then js ''blocked''
          else js ''in-progress'')
   \<and> deriveStatus (a\<lparr>githubData := Some (g\<lparr>gd_type := Some (js ''issue'')\<rparr>)\<rparr>)
       = (if gd_state g = Some (js ''closed'') then js ''done'' else js ''in-progress'')
   \<and> deriveStatus a \<noteq> js ''shipped'' \<and> deriveStatus a \<noteq> js ''paid''"
proof -
  have range: "deriveStatus a \<in> {js ''todo'', js ''in-progress'', js ''done'', js ''blocked''}"
    by (cases "githubData a") (auto simp: deriveStatus_def)
  have never: "deriveStatus a \<noteq> js ''shipped'' \<and> deriveStatus a \<noteq> js ''paid''"
    using range by auto
  show ?thesis
    using never by (simp add: deriveStatus_def)
qed

section \<open>The versioned store: conflicts\<close>

lemma saveData_two_steps:
  "run_writers now [False, False] (Loaded a, b, st)
     = (case saveData now a st of
          (Inl e, st') \<Rightarrow> (Conflict e, b, st')
        | (Inr d', st') \<Rightarrow> (Saved d', b, st'))"
  by (simp add: saveData_def Let_def split: sum.splits)

lemma stored_version_write [simp]:
  "stored_version (Some (saveData_write now d v)) = v + 1"
  by (simp add: stored_version_def saveData_write_def version_or_0_def)

text \<open>
  A call of \<open>saveData\<close> that nothing interrupts fails with a \<open>ConcurrencyError\<close> if and
  only if the \<open>writeVersion\<close> read from persistent storage differs from the one the
  registry object carries from its load (a missing version counting as 0); the failed
  call leaves the store as it was, the successful call persists the registry with the
  write version incremented by exactly one. Running the two steps of \<open>saveData\<close> back to
  back is such a call; so of two writers that both loaded the version now stored and
  whose saves run one after the other, in either order, the first succeeds and the second
  receives the conflict.
\<close>

lemma saveData_sequential:
  "(fst (saveData now d st) = Inl ConcurrencyError \<longleftrightarrow> stored_version st \<noteq> version_or_0 d)
   \<and> (if stored_version st \<noteq> version_or_0 d then saveData now d st = (Inl ConcurrencyError, st)
       else saveData now d st
              = (Inr (d\<lparr>writeVersion := Some (stored_version st + 1), reg_updatedAt := Some now\<rparr>),
                 Some (d\<lparr>writeVersion := Some (stored_version st + 1), reg_updatedAt := Some now\<rparr>)))
   \<and> run_writers now [False, False] (Loaded a, Loaded b, st)
       = (case saveData now a st of
            (Inl e, st') \<Rightarrow> (Conflict e, Loaded b, st')
          | (Inr d', st') \<Rightarrow> (Saved d', Loaded b, st'))
   \<and> (version_or_0 a = stored_version st \<and> version_or_0 b = stored_version st \<longrightarrow>
         run_writers now [False, False, True, True] (Loaded a, Loaded b, st)
           = (Saved (saveData_write now a (stored_version st)), Conflict ConcurrencyError,
              Some (saveData_write now a (stored_version st)))
       \<and> run_writers now [True, True, False, False] (Loaded a, Loaded b, st)
           = (Conflict ConcurrencyError, Saved (saveData_write now b (stored_version st)),
              Some (saveData_write now b (stored_version st))))"
proof -
  have one: "(fst (saveData now d st) = Inl ConcurrencyError \<longleftrightarrow> stored_version st \<noteq> version_or_0 d)
   \<and> (if stored_version st \<noteq> version_or_0 d then saveData now d st = (Inl ConcurrencyError, st)
       else saveData now d st
              = (Inr (d\<lparr>writeVersion := Some (stored_version st + 1), reg_updatedAt := Some now\<rparr>),
                 Some (d\<lparr>writeVersion := Some (stored_version st + 1), reg_updatedAt := Some now\<rparr>)))"
    by (simp add: saveData_def saveData_check_def saveData_write_def Let_def)
  have two: "version_or_0 a = stored_version st \<and> version_or_0 b = stored_version st \<longrightarrow>
         run_writers now [False, False, True, True] (Loaded a, Loaded b, st)
           = (Saved (saveData_write now a (stored_version st)), Conflict ConcurrencyError,
              Some (saveData_write now a (stored_version st)))
       \<and> run_writers now [True, True, False, False] (Loaded a, Loaded b, st)
           = (Conflict ConcurrencyError, Saved (saveData_write now b (stored_version st)),
              Some (saveData_write now b (stored_version st)))"
    by (simp add: saveData_check_def Let_def)
  show ?thesis
    using one two saveData_two_steps[of now a "Loaded b" st] by blast
qed

lemma saveData_sequential_example:
  "fst (saveData 9 (reg0\<lparr>items := []\<rparr>) (Some reg0)) \<noteq> Inl ConcurrencyError
   \<and> saveData 9 (reg0\<lparr>items := []\<rparr>) (Some reg0)
       = (Inr \<lparr>writeVersion = Some 5, items = [], reg_updatedAt = Some 9\<rparr>,
          Some \<lparr>writeVersion = Some 5, items = [], reg_updatedAt = Some 9\<rparr>)
   \<and> fst (saveData 9 (reg0\<lparr>writeVersion := Some 3\<rparr>) (Some reg0)) = Inl ConcurrencyError
   \<and> run_writers 9 [False, False, True, True]
        (Loaded (reg0\<lparr>items := []\<rparr>), Loaded reg0, Some reg0)
       = (Saved \<lparr>writeVersion = Some 5, items = [], reg_updatedAt = Some 9\<rparr>,
          Conflict ConcurrencyError,
          Some \<lparr>writeVersion = Some 5, items = [], reg_updatedAt = Some 9\<rparr>)"
  using saveData_sequential[of 9 "reg0\<lparr>items := []\<rparr>" "Some reg0" "reg0\<lparr>items := []\<rparr>" reg0]
        saveData_sequential[of 9 "reg0\<lparr>writeVersion := Some 3\<rparr>" "Some reg0" reg0 reg0]
  by (simp add: reg0_def version_or_0_def stored_version_def saveData_write_def Let_def)

text \<open>
  The read, the comparison and the write of \<open>saveData\<close> are three separate steps, and the
  write is unconditional. Whenever two writers hold the version now stored and both read
  it before either writes, both comparisons pass and both saves succeed; the store ends
  with the second writer's registry.
\<close>

lemma interleaved_saves_both_succeed:
  assumes "version_or_0 a = stored_version st" "version_or_0 b = stored_version st"
  shows "run_writers now [False, True, False, True] (Loaded a, Loaded b, st)
           = (Saved (saveData_write now a (stored_version st)),
              Saved (saveData_write now b (stored_version st)),
              Some (saveData_write now b (stored_version st)))"
  using assms by (simp add: saveData_check_def Let_def)

text \<open>
  C3. Two writers load the registry stored at write version 4, each changes the title of
  its item, and both call \<open>saveData\<close>. The first reads the stored version, the second reads
  the stored version, the first writes, the second writes. Both comparisons find 4 = 4:
  neither writer receives a \<open>ConcurrencyError\<close>, both saves succeed with write version 5,
  and the store holds the second writer's registry. The first writer's change is lost
  without a conflict signal, where exactly one of the two saves was to succeed.
\<close>

theorem saveData_two_writers_lost_update:
  "run_writers 9 [False, True, False, True]
     (Loaded (reg0\<lparr>items := [item0\<lparr>item_id := js ''r_1'', title := js ''A''\<rparr>]\<rparr>),
      Loaded (reg0\<lparr>items := [item0\<lparr>item_id := js ''r_1'', title := js ''B''\<rparr>]\<rparr>),
      Some reg0)
   = (Saved \<lparr>writeVersion = Some 5, items = [item0\<lparr>item_id := js ''r_1'', title := js ''A''\<rparr>],
             reg_updatedAt = Some 9\<rparr>,
      Saved \<lparr>writeVersion = Some 5, items = [item0\<lparr>item_id := js ''r_1'', title := js ''B''\<rparr>],
             reg_updatedAt = Some 9\<rparr>,
      Some \<lparr>writeVersion = Some 5, items = [item0\<lparr>item_id := js ''r_1'', title := js ''B''\<rparr>],
             reg_updatedAt = Some 9\<rparr>)"
  by (simp add: reg0_def saveData_check_def saveData_write_def version_or_0_def stored_version_def Let_def)

section \<open>The retrying save\<close>

lemma env_turn_logs:
  "env_turn w = (ok, w') \<Longrightarrow> puts w' = puts w \<and> slept w' = slept w"
  by (auto simp: env_turn_def split: list.splits env_action.splits)

lemma kv_get_logs:
  "kv_get w = (r, w') \<Longrightarrow> puts w' = puts w \<and> slept w' = slept w"
  by (auto simp: kv_get_def Let_def split: prod.splits if_splits dest: env_turn_logs)

lemma kv_put_logs:
  "kv_put d w = (r, w') \<Longrightarrow>
     slept w' = slept w \<and>
     (case r of Inr u \<Rightarrow> puts w' = puts w @ [d] \<and> stored w' = Some d | Inl e \<Rightarrow> puts w' = puts w \<and> e = KvError)"
  by (auto simp: kv_put_def Let_def split: prod.splits if_splits dest: env_turn_logs)

lemma saveData_in_logs:
  assumes "saveData_in now d w = (r, w')"
  shows "slept w' = slept w \<and>
     (case r of
        Inr d' \<Rightarrow> puts w' = puts w @ [d'] \<and> stored w' = Some d' \<and> items d' = items d
      | Inl e \<Rightarrow> puts w' = puts w)"
proof (cases "kv_get w")
  case (Pair g w1)
  note g = kv_get_logs[OF Pair]
  show ?thesis
  proof (cases g)
    case (Inl e)
    with assms Pair g show ?thesis by (auto simp: saveData_in_def)
  next
    case (Inr cur)
    show ?thesis
    proof (cases "saveData_check cur d")
      case (Inl e)
      with assms Pair Inr g show ?thesis by (auto simp: saveData_in_def)
    next
      case v: (Inr v)
      obtain p w2 where p: "kv_put (saveData_write now d v) w1 = (p, w2)" by force
      from kv_put_logs[OF p] assms Pair Inr v p g show ?thesis
        by (cases p) (auto simp: saveData_in_def Let_def saveData_write_def)
    qed
  qed
qed

lemma saveRetry_from_logs:
  "attempt \<le> maxRetries \<Longrightarrow> saveRetry_from now maxRetries attempt d w = (r, w') \<Longrightarrow>
     (\<exists>k. attempt + k \<le> maxRetries
          \<and> slept w' = slept w @ map backoff [attempt..<attempt + k]
          \<and> (r = Inl ConcurrencyError \<longrightarrow> attempt + k = maxRetries))
     \<and> (case r of
           Inr d' \<Rightarrow> puts w' = puts w @ [d'] \<and> stored w' = Some d' \<and> items d' = items d
         | Inl e \<Rightarrow> puts w' = puts w)"
proof (induction now maxRetries attempt d w arbitrary: r w' rule: saveRetry_from.induct)
  case (1 now maxRetries attempt d w)
  obtain s w1 where s: "saveData_in now d w = (s, w1)" by force
  note sl = saveData_in_logs[OF s]
  show ?case
  proof (cases s)
    case (Inr d')
    with "1.prems" s have "r = Inr d'" "w' = w1"
      by (auto simp: saveRetry_from.simps[of now maxRetries attempt d w] split: if_splits)
    with sl Inr "1.prems"(1) show ?thesis
      by (auto intro!: exI[of _ 0])
  next
    case (Inl err)
    show ?thesis
    proof (cases "err \<noteq> ConcurrencyError \<or> attempt = maxRetries")
      case True
      with "1.prems" s Inl have rw: "r = Inl err" "w' = w1"
        by (auto simp: saveRetry_from.simps[of now maxRetries attempt d w] split: if_splits)
      with sl Inl True "1.prems"(1) show ?thesis
        by (auto intro!: exI[of _ 0])
    next
      case False
      then have ce: "err = ConcurrencyError" and lt: "attempt < maxRetries"
        using "1.prems"(1) by auto
      define w2 where "w2 = w1\<lparr>slept := slept w1 @ [backoff attempt]\<rparr>"
      obtain g w3 where g: "kv_get w2 = (g, w3)" by force
      note gl = kv_get_logs[OF g]
      show ?thesis
      proof (cases g)
        case e: (Inl e)
        have "e = KvError" using g e by (auto simp: kv_get_def Let_def split: prod.splits if_splits)
        moreover from "1.prems" s Inl ce lt g e have rw: "r = Inl e" "w' = w3"
          by (auto simp: saveRetry_from.simps[of now maxRetries attempt d w] w2_def Let_def split: if_splits)
        ultimately show ?thesis using sl Inl gl lt
          by (auto simp: w2_def intro!: exI[of _ 1])
      next
        case fr: (Inr fresh)
        let ?d2 = "d\<lparr>writeVersion := Some (stored_version fresh)\<rparr>"
        from "1.prems" s Inl ce lt g fr
        have rec: "saveRetry_from now maxRetries (attempt + 1) ?d2 w3 = (r, w')"
          by (auto simp: saveRetry_from.simps[of now maxRetries attempt d w] w2_def Let_def split: if_splits)
        have le: "attempt + 1 \<le> maxRetries" using lt by simp
        have ih: "(\<exists>k. attempt + 1 + k \<le> maxRetries
              \<and> slept w' = slept w3 @ map backoff [attempt + 1..<attempt + 1 + k]
              \<and> (r = Inl ConcurrencyError \<longrightarrow> attempt + 1 + k = maxRetries))
            \<and> (case r of
                  Inr d' \<Rightarrow> puts w' = puts w3 @ [d'] \<and> stored w' = Some d' \<and> items d' = items ?d2
                | Inl e \<Rightarrow> puts w' = puts w3)"
          using "1.IH"[OF "1.prems"(1) s[symmetric] Inl _ _ w2_def g[symmetric] fr le rec] ce lt
          by simp
        then obtain k where k: "attempt + 1 + k \<le> maxRetries"
            "slept w' = slept w3 @ map backoff [attempt + 1..<attempt + 1 + k]"
            "r = Inl ConcurrencyError \<longrightarrow> attempt + 1 + k = maxRetries" by blast
        have sl3: "slept w3 = slept w @ [backoff attempt]" and p3: "puts w3 = puts w"
          using sl Inl gl by (simp_all add: w2_def)
        have "[attempt..<attempt + Suc k] = attempt # [attempt + 1..<attempt + 1 + k]"
          by (simp add: upt_rec)
        then have "slept w' = slept w @ map backoff [attempt..<attempt + Suc k]"
          using k(2) sl3 by simp
        moreover have "attempt + Suc k \<le> maxRetries" using k(1) by simp
        moreover have "r = Inl ConcurrencyError \<longrightarrow> attempt + Suc k = maxRetries" using k(3) by simp
        ultimately have ex: "\<exists>k. attempt + k \<le> maxRetries
          \<and> slept w' = slept w @ map backoff [attempt..<attempt + k]
          \<and> (r = Inl ConcurrencyError \<longrightarrow> attempt + k = maxRetries)" by blast
        from ih p3 have "(case r of
           Inr d' \<Rightarrow> puts w' = puts w @ [d'] \<and> stored w' = Some d' \<and> items d' = items d
         | Inl e \<Rightarrow> puts w' = puts w)"
          by (auto split: sum.splits)
        with ex show ?thesis by blast
      qed
    qed
  qed
qed

lemma backoff_values: "backoff 1 = 100" "backoff 2 = 200" "backoff 3 = 400"
  by (simp_all add: backoff_def)

lemma backoff_doubles: "backoff (Suc (Suc k)) = min (2 * backoff (Suc k)) 5000"
  by (simp add: backoff_def min_def)

lemma backoff_capped: "backoff k \<le> 5000"
  by (simp add: backoff_def)

lemma saveRetry_exhausted:
  assumes "pending w = OtherWrite r1 # OtherWrite r2 # OtherWrite r3 # OtherWrite r4 # OtherWrite r5 # rest"
      and "stored_version r1 \<noteq> version_or_0 d"
      and "stored_version r3 \<noteq> stored_version r2"
      and "stored_version r5 \<noteq> stored_version r4"
  shows "saveRetry now d w
           = (Inl ConcurrencyError, w\<lparr>stored := r5, pending := rest, slept := slept w @ [100, 200]\<rparr>)"
proof (cases w)
  case (fields st pe sl pu)
  have v: "\<And>x. version_or_0 (d\<lparr>writeVersion := Some x\<rparr>) = x" by (simp add: version_or_0_def)
  have a3: "saveRetry_from now 3 3 (d\<lparr>writeVersion := Some (stored_version r4)\<rparr>)
              \<lparr>stored = r4, pending = OtherWrite r5 # rest, slept = sl @ [100, 200], puts = pu\<rparr>
            = (Inl ConcurrencyError,
               \<lparr>stored = r5, pending = rest, slept = sl @ [100, 200], puts = pu\<rparr>)"
    apply (subst saveRetry_from.simps)
    using assms(4) by (simp add: saveData_in_def kv_get_def env_turn_def saveData_check_def v Let_def)
  have a2: "saveRetry_from now 3 2 (d\<lparr>writeVersion := Some (stored_version r2)\<rparr>)
              \<lparr>stored = r2, pending = OtherWrite r3 # OtherWrite r4 # OtherWrite r5 # rest,
               slept = sl @ [100], puts = pu\<rparr>
            = (Inl ConcurrencyError,
               \<lparr>stored = r5, pending = rest, slept = sl @ [100, 200], puts = pu\<rparr>)"
    apply (subst saveRetry_from.simps)
    using assms(3) a3
    by (simp add: saveData_in_def kv_get_def env_turn_def saveData_check_def v Let_def backoff_def
          numeral_2_eq_2 numeral_3_eq_3)
  show ?thesis
    unfolding saveRetry_def
    apply (subst saveRetry_from.simps)
    using assms(1,2) a2 fields
    by (simp add: saveData_in_def kv_get_def env_turn_def saveData_check_def Let_def backoff_def
          numeral_2_eq_2 numeral_3_eq_3)
qed

lemma backoff_prefix: "k \<le> 2 \<Longrightarrow> map backoff [1..<1 + k] = take k [100, 200]"
proof -
  assume "k \<le> 2"
  then consider "k = 0" | "k = 1" | "k = 2" by linarith
  then show ?thesis
    by cases (simp_all add: backoff_def upt_rec)
qed



text \<open>
  C7 (as amended). The retrying save of the background scans makes at most three
  attempts. After a conflicting attempt other than the last it sleeps (100 ms, then
  200 ms: the delay \<open>min (100 * 2^(attempt - 1)) 5000\<close> doubles per attempt up to the cap),
  re-reads the stored write version into the registry object and tries again with the
  same in-memory items; a successful attempt stores exactly those items. When the third
  attempt conflicts too, nothing has been written and the \<open>ConcurrencyError\<close> is rethrown
  to the calling scan, after both sleeps; any other error is rethrown at once.
\<close>

theorem saveRetry_bounded_then_rethrows:
  "(case saveRetry now d w of
      (Inr d', w') \<Rightarrow>
         puts w' = puts w @ [d'] \<and> stored w' = Some d' \<and> items d' = items d
         \<and> (\<exists>k \<le> 2. slept w' = slept w @ take k [100, 200])
    | (Inl e, w') \<Rightarrow>
         puts w' = puts w
         \<and> (\<exists>k \<le> 2. slept w' = slept w @ take k [100, 200])
         \<and> (e = ConcurrencyError \<longrightarrow> slept w' = slept w @ [100, 200]))
   \<and> (pending w = OtherWrite r1 # OtherWrite r2 # OtherWrite r3 # OtherWrite r4 # OtherWrite r5 # rest
        \<and> stored_version r1 \<noteq> version_or_0 d
        \<and> stored_version r3 \<noteq> stored_version r2
        \<and> stored_version r5 \<noteq> stored_version r4 \<longrightarrow>
        saveRetry now d w
          = (Inl ConcurrencyError, w\<lparr>stored := r5, pending := rest, slept := slept w @ [100, 200]\<rparr>))
   \<and> backoff 1 = 100 \<and> backoff (Suc (Suc n)) = min (2 * backoff (Suc n)) 5000 \<and> backoff n \<le> 5000"
proof -
  obtain r w' where rw: "saveRetry now d w = (r, w')" by force
  then have "saveRetry_from now 3 1 d w = (r, w')" by (simp add: saveRetry_def)
  from saveRetry_from_logs[OF _ this]
  obtain k where k: "1 + k \<le> 3" "slept w' = slept w @ map backoff [1..<1 + k]"
      "r = Inl ConcurrencyError \<longrightarrow> 1 + k = 3"
    and p: "case r of
           Inr d' \<Rightarrow> puts w' = puts w @ [d'] \<and> stored w' = Some d' \<and> items d' = items d
         | Inl e \<Rightarrow> puts w' = puts w"
    by auto
  have k2: "k \<le> 2" using k(1) by simp
  have sl: "slept w' = slept w @ take k [100, 200]"
    using k(2) backoff_prefix[OF k2] by simp
  have full: "r = Inl ConcurrencyError \<longrightarrow> slept w' = slept w @ [100, 200]"
  proof
    assume "r = Inl ConcurrencyError"
    with k(3) have "k = 2" by simp
    with sl show "slept w' = slept w @ [100, 200]" by simp
  qed
  have first: "case (r, w') of
      (Inr d', w') \<Rightarrow>
         puts w' = puts w @ [d'] \<and> stored w' = Some d' \<and> items d' = items d
         \<and> (\<exists>k \<le> 2. slept w' = slept w @ take k [100, 200])
    | (Inl e, w') \<Rightarrow>
         puts w' = puts w
         \<and> (\<exists>k \<le> 2. slept w' = slept w @ take k [100, 200])
         \<and> (e = ConcurrencyError \<longrightarrow> slept w' = slept w @ [100, 200])"
    using p sl k2 full by (cases r) auto
  show ?thesis
    using first saveRetry_exhausted[where w = w and ?r1.0 = r1 and ?r2.0 = r2 and ?r3.0 = r3
        and ?r4.0 = r4 and ?r5.0 = r5 and rest = rest and d = d and now = now] backoff_values(1)
      backoff_doubles[of n] backoff_capped[of n]
    by (simp add: rw)
qed

theorem saveRetry_bounded_then_rethrows_witness:
  "saveRetry 9 (reg0\<lparr>items := []\<rparr>) world5
     = (Inl ConcurrencyError,
        \<lparr>stored = Some (reg0\<lparr>writeVersion := Some 9\<rparr>), pending = [], slept = [100, 200], puts = []\<rparr>)
   \<and> (\<exists>d' w'. saveRetry 9 (reg0\<lparr>items := []\<rparr>) world1 = (Inr d', w')
         \<and> items d' = [] \<and> stored w' = Some d' \<and> puts w' = [d'])"
proof -
  let ?d = "reg0\<lparr>items := []\<rparr>"
  have ex: "saveRetry 9 ?d world5
     = (Inl ConcurrencyError,
        \<lparr>stored = Some (reg0\<lparr>writeVersion := Some 9\<rparr>), pending = [], slept = [100, 200], puts = []\<rparr>)"
    using saveRetry_bounded_then_rethrows[where now = 9 and d = ?d and w = world5
        and ?r1.0 = "Some (reg0\<lparr>writeVersion := Some 5\<rparr>)"
        and ?r2.0 = "Some (reg0\<lparr>writeVersion := Some 6\<rparr>)"
        and ?r3.0 = "Some (reg0\<lparr>writeVersion := Some 7\<rparr>)"
        and ?r4.0 = "Some (reg0\<lparr>writeVersion := Some 8\<rparr>)"
        and ?r5.0 = "Some (reg0\<lparr>writeVersion := Some 9\<rparr>)" and rest = "[]" and n = 0]
    by (simp add: world5_def reg0_def stored_version_def version_or_0_def)
  have s1: "saveRetry 9 ?d world1
     = (Inr (?d\<lparr>writeVersion := Some 8, reg_updatedAt := Some 9\<rparr>),
        \<lparr>stored = Some (?d\<lparr>writeVersion := Some 8, reg_updatedAt := Some 9\<rparr>), pending = [],
         slept = [100], puts = [?d\<lparr>writeVersion := Some 8, reg_updatedAt := Some 9\<rparr>]\<rparr>)"
    unfolding saveRetry_def
    apply (subst saveRetry_from.simps)
    apply (simp add: world1_def reg0_def saveData_in_def kv_get_def kv_put_def env_turn_def
        saveData_check_def saveData_write_def stored_version_def version_or_0_def Let_def backoff_def)
    apply (subst saveRetry_from.simps)
    apply (simp add: world1_def reg0_def saveData_in_def kv_get_def kv_put_def env_turn_def
        saveData_check_def saveData_write_def stored_version_def version_or_0_def Let_def backoff_def)
    done
  show ?thesis
    using ex s1 by simp
qed

lemma saveRetry_three_conflicts:
  "fst (saveRetry 9 (reg0\<lparr>items := [item0\<lparr>item_id := js ''r_2''\<rparr>]\<rparr>)
         \<lparr>stored = Some reg0,
          pending = [OtherWrite (Some (reg0\<lparr>writeVersion := Some 5\<rparr>)), Quiet,
                     OtherWrite (Some (reg0\<lparr>writeVersion := Some 6\<rparr>)), Quiet,
                     OtherWrite (Some (reg0\<lparr>writeVersion := Some 7\<rparr>))],
          slept = [], puts = []\<rparr>)
   = Inl ConcurrencyError"
  unfolding saveRetry_def
  apply (subst saveRetry_from.simps)
  apply (simp add: reg0_def saveData_in_def kv_get_def kv_put_def env_turn_def
      saveData_check_def saveData_write_def stored_version_def version_or_0_def Let_def backoff_def)
  apply (subst saveRetry_from.simps)
  apply (simp add: reg0_def saveData_in_def kv_get_def kv_put_def env_turn_def
      saveData_check_def saveData_write_def stored_version_def version_or_0_def Let_def backoff_def)
  apply (subst saveRetry_from.simps)
  apply (simp add: reg0_def saveData_in_def kv_get_def kv_put_def env_turn_def
      saveData_check_def saveData_write_def stored_version_def version_or_0_def Let_def backoff_def)
  done

lemma refresh_items_issue:
  "refresh_items 900000 (\<lambda>u. Fresh reopened_issue) [issue_item]
     = ([issue_item\<lparr>githubData := Some reopened_issue, updatedAt := 900000\<rparr>], True, 1,
        [\<lparr>ev_itemId = js ''r_1'', ev_itemTitle = js ''Parser'',
          ev_oldStatus = js ''done'', ev_newStatus = js ''in-progress''\<rparr>])"
  by (simp add: refresh_item_def deriveStatus_def issue_item_def item0_def closed_issue_def
        reopened_issue_def STALE_AFTER_MS_def fetchedAt_or_0_def Let_def)

lemma refresh_conflicts:
  "fst (refreshStaleGithubData 900000 (\<lambda>u. Fresh reopened_issue)
         \<lparr>stored = Some (reg0\<lparr>items := [issue_item]\<rparr>),
          pending = [Quiet,
                     OtherWrite (Some (reg0\<lparr>writeVersion := Some 5\<rparr>)), Quiet,
                     OtherWrite (Some (reg0\<lparr>writeVersion := Some 6\<rparr>)), Quiet,
                     OtherWrite (Some (reg0\<lparr>writeVersion := Some 7\<rparr>))],
          slept = [], puts = []\<rparr>)
   = Inl ConcurrencyError"
proof -
  let ?d = "\<lparr>writeVersion = Some 4,
             items = [issue_item\<lparr>githubData := Some reopened_issue, updatedAt := 900000\<rparr>],
             reg_updatedAt = None\<rparr>"
  let ?w1 = "\<lparr>stored = Some (reg0\<lparr>items := [issue_item]\<rparr>),
          pending = [OtherWrite (Some (reg0\<lparr>writeVersion := Some 5\<rparr>)), Quiet,
                     OtherWrite (Some (reg0\<lparr>writeVersion := Some 6\<rparr>)), Quiet,
                     OtherWrite (Some (reg0\<lparr>writeVersion := Some 7\<rparr>))],
          slept = [], puts = []\<rparr>"
  have sv: "fst (saveRetry 900000 ?d ?w1) = Inl ConcurrencyError"
    unfolding saveRetry_def
    apply (subst saveRetry_from.simps)
    apply (simp add: reg0_def saveData_in_def kv_get_def kv_put_def env_turn_def
        saveData_check_def saveData_write_def stored_version_def version_or_0_def Let_def backoff_def)
    apply (subst saveRetry_from.simps)
    apply (simp add: reg0_def saveData_in_def kv_get_def kv_put_def env_turn_def
        saveData_check_def saveData_write_def stored_version_def version_or_0_def Let_def backoff_def)
    apply (subst saveRetry_from.simps)
    apply (simp add: reg0_def saveData_in_def kv_get_def kv_put_def env_turn_def
        saveData_check_def saveData_write_def stored_version_def version_or_0_def Let_def backoff_def)
    done
  have gd: "getData (Some (reg0\<lparr>items := [issue_item]\<rparr>))
              = \<lparr>writeVersion = Some 4, items = [issue_item], reg_updatedAt = None\<rparr>"
    by (simp add: getData_def reg0_def version_or_0_def Let_def)
  obtain w2 where sv2: "saveRetry 900000 ?d ?w1 = (Inl ConcurrencyError, w2)"
    using sv by (cases "saveRetry 900000 ?d ?w1") auto
  show ?thesis
    by (simp add: refreshStaleGithubData_def kv_get_def env_turn_def gd refresh_items_issue
          sv2 Let_def del: refresh_items.simps)
qed

text \<open>
  Three conflicts in a row: the call does not return normally, it ends in the
  \<open>ConcurrencyError\<close>. The calling scan receives it: a refresh that has a changed item to
  save ends in the same error instead of returning its counts.
\<close>

theorem saveRetry_rethrows_counterexample:
  "fst (saveRetry 9 (reg0\<lparr>items := [item0\<lparr>item_id := js ''r_2''\<rparr>]\<rparr>)
         \<lparr>stored = Some reg0,
          pending = [OtherWrite (Some (reg0\<lparr>writeVersion := Some 5\<rparr>)), Quiet,
                     OtherWrite (Some (reg0\<lparr>writeVersion := Some 6\<rparr>)), Quiet,
                     OtherWrite (Some (reg0\<lparr>writeVersion := Some 7\<rparr>))],
          slept = [], puts = []\<rparr>)
   = Inl ConcurrencyError
   \<and> fst (refreshStaleGithubData 900000 (\<lambda>u. Fresh reopened_issue)
         \<lparr>stored = Some (reg0\<lparr>items := [issue_item]\<rparr>),
          pending = [Quiet,
                     OtherWrite (Some (reg0\<lparr>writeVersion := Some 5\<rparr>)), Quiet,
                     OtherWrite (Some (reg0\<lparr>writeVersion := Some 6\<rparr>)), Quiet,
                     OtherWrite (Some (reg0\<lparr>writeVersion := Some 7\<rparr>))],
          slept = [], puts = []\<rparr>)
   = Inl ConcurrencyError"
  using saveRetry_three_conflicts refresh_conflicts by (rule conjI)

section \<open>Reordering: the result is a permutation\<close>

lemma map_set_fresh: "k \<notin> fst ` set m \<Longrightarrow> map_set k v m = m @ [(k, v)]"
  by (induction m) auto

lemma foldl_map_set_distinct:
  "distinct (map fst (m @ ps)) \<Longrightarrow> foldl (\<lambda>m (k, v). map_set k v m) m ps = m @ ps"
proof (induction ps arbitrary: m)
  case Nil then show ?case by simp
next
  case (Cons p ps)
  obtain k v where p: "p = (k, v)" by (cases p)
  from Cons.prems have "k \<notin> fst ` set m" by (auto simp: p)
  then have "map_set k v m = m @ [(k, v)]" by (rule map_set_fresh)
  moreover from Cons.prems have "distinct (map fst ((m @ [(k, v)]) @ ps))" by (simp add: p)
  ultimately show ?case using Cons.IH[of "m @ [(k, v)]"] by (simp add: p)
qed

lemma new_Map_distinct: "distinct (map fst ps) \<Longrightarrow> new_Map ps = ps"
  using foldl_map_set_distinct[of "[]" ps] by (simp add: new_Map_def)

lemma first_occurrences_seen:
  "first_occurrences seen xs = filter (\<lambda>x. x \<notin> set seen) (first_occurrences [] xs)"
proof (induction xs arbitrary: seen)
  case Nil then show ?case by simp
next
  case (Cons x xs)
  have a: "first_occurrences [x] xs = filter (\<lambda>y. y \<notin> set [x]) (first_occurrences [] xs)"
    by (rule Cons.IH)
  show ?case
  proof (cases "x \<in> set seen")
    case True
    have "filter (\<lambda>y. y \<notin> set seen) (filter (\<lambda>y. y \<notin> set [x]) (first_occurrences [] xs))
          = filter (\<lambda>y. y \<notin> set seen) (first_occurrences [] xs)"
      using True by (auto intro: filter_cong)
    then show ?thesis using True Cons.IH[of seen] a by simp
  next
    case False
    have "filter (\<lambda>y. y \<notin> set seen) (filter (\<lambda>y. y \<notin> set [x]) (first_occurrences [] xs))
          = filter (\<lambda>y. y \<notin> set (x # seen)) (first_occurrences [] xs)"
      by (auto intro: filter_cong)
    then show ?thesis using False Cons.IH[of "x # seen"] a by simp
  qed
qed

lemma set_first_occurrences: "set (first_occurrences seen xs) = set xs - set seen"
  by (induction xs arbitrary: seen) auto

lemma distinct_first_occurrences: "distinct (first_occurrences seen xs)"
  by (induction xs arbitrary: seen) (auto simp: set_first_occurrences)

lemma map_of_map_delete: "j \<noteq> i \<Longrightarrow> map_of (map_delete i m) j = map_of m j"
  by (induction m) (auto simp: map_delete_def)

lemma fst_set_map_delete: "fst ` set (map_delete i m) = fst ` set m - {i}"
  by (auto simp: map_delete_def image_iff)

lemma distinct_map_delete: "distinct (map fst m) \<Longrightarrow> distinct (map fst (map_delete i m))"
  by (simp add: map_delete_def distinct_map_filter)

lemma reorder_loop_spec:
  "distinct (map fst m) \<Longrightarrow>
   reorder_loop ids m acc =
     (filter (\<lambda>(k, v). k \<notin> set ids) m,
      acc @ map (\<lambda>i. the (map_of m i))
              (filter (\<lambda>i. i \<in> fst ` set m) (first_occurrences [] ids)))"
proof (induction ids arbitrary: m acc)
  case Nil then show ?case by simp
next
  case (Cons i ids)
  have fo: "first_occurrences [] (i # ids) = i # filter (\<lambda>y. y \<noteq> i) (first_occurrences [] ids)"
    using first_occurrences_seen[of "[i]" ids] by simp
  show ?case
  proof (cases "map_of m i")
    case None
    then have notin: "i \<notin> fst ` set m" by (simp add: map_of_eq_None_iff)
    have f1: "filter (\<lambda>(k, v). k \<notin> set (i # ids)) m = filter (\<lambda>(k, v). k \<notin> set ids) m"
      using notin by (auto intro!: filter_cong simp: image_iff)
    have f2: "filter (\<lambda>j. j \<in> fst ` set m) (first_occurrences [] (i # ids))
              = filter (\<lambda>j. j \<in> fst ` set m) (first_occurrences [] ids)"
      unfolding fo using notin by (auto intro!: filter_cong)
    show ?thesis
      using None Cons.IH[OF Cons.prems, of acc] f1 f2 by simp
  next
    case (Some it)
    then have isin: "i \<in> fst ` set m" by (metis map_of_eq_None_iff option.distinct(1))
    let ?m' = "map_delete i m"
    have d': "distinct (map fst ?m')" using Cons.prems by (rule distinct_map_delete)
    have f1: "filter (\<lambda>(k, v). k \<notin> set (i # ids)) m = filter (\<lambda>(k, v). k \<notin> set ids) ?m'"
      by (auto simp: map_delete_def intro!: filter_cong)
    have f2: "filter (\<lambda>j. j \<in> fst ` set m) (first_occurrences [] (i # ids))
              = i # filter (\<lambda>j. j \<in> fst ` set ?m') (first_occurrences [] ids)"
      unfolding fo using isin by (auto simp: fst_set_map_delete intro!: filter_cong)
    have f3: "map (\<lambda>j. the (map_of ?m' j)) (filter (\<lambda>j. j \<in> fst ` set ?m') (first_occurrences [] ids))
              = map (\<lambda>j. the (map_of m j)) (filter (\<lambda>j. j \<in> fst ` set ?m') (first_occurrences [] ids))"
      by (rule map_cong) (auto simp: fst_set_map_delete map_of_map_delete)
    show ?thesis
      using Some Cons.IH[OF d', of "acc @ [it]"] f1 f2 f3 by simp
  qed
qed

lemma reorder_items_spec:
  assumes "distinct (map item_id its)"
  shows "reorder_items orderedIds its =
           map (\<lambda>i. the (map_of (map (\<lambda>it. (item_id it, it)) its) i))
               (filter (\<lambda>i. i \<in> item_id ` set its) (first_occurrences [] orderedIds))
           @ filter (\<lambda>it. item_id it \<notin> set orderedIds) its"
proof -
  let ?m = "map (\<lambda>it. (item_id it, it)) its"
  have d: "distinct (map fst ?m)" using assms by (simp add: comp_def)
  have nm: "new_Map ?m = ?m" using d by (rule new_Map_distinct)
  have keys: "fst ` set ?m = item_id ` set its" by (auto simp: image_iff)
  have rest: "map snd (filter (\<lambda>(k, v). k \<notin> set orderedIds) ?m)
              = filter (\<lambda>it. item_id it \<notin> set orderedIds) its"
    by (induction its) auto
  show ?thesis
    unfolding reorder_items_def nm reorder_loop_spec[OF d] using keys rest by simp
qed

lemma map_of_item_id:
  "distinct (map item_id its) \<Longrightarrow> it \<in> set its \<Longrightarrow>
   map_of (map (\<lambda>it. (item_id it, it)) its) (item_id it) = Some it"
  by (induction its) (auto simp: image_iff)

lemma reorder_items_ids:
  assumes "distinct (map item_id its)"
  shows "map item_id (reorder_items orderedIds its) =
           filter (\<lambda>i. i \<in> item_id ` set its) (first_occurrences [] orderedIds)
           @ filter (\<lambda>i. i \<notin> set orderedIds) (map item_id its)"
proof -
  have "map (\<lambda>i. item_id (the (map_of (map (\<lambda>it. (item_id it, it)) its) i)))
               (filter (\<lambda>i. i \<in> item_id ` set its) (first_occurrences [] orderedIds))
        = filter (\<lambda>i. i \<in> item_id ` set its) (first_occurrences [] orderedIds)"
  proof (rule map_idI)
    fix i assume "i \<in> set (filter (\<lambda>i. i \<in> item_id ` set its) (first_occurrences [] orderedIds))"
    then obtain it where "it \<in> set its" "i = item_id it" by auto
    then show "item_id (the (map_of (map (\<lambda>it. (item_id it, it)) its) i)) = i"
      using map_of_item_id[OF assms] by simp
  qed
  then show ?thesis
    unfolding reorder_items_spec[OF assms] by (simp add: filter_map comp_def)
qed

lemma reorder_items_set:
  assumes "distinct (map item_id its)"
  shows "set (reorder_items orderedIds its) = set its"
proof -
  have "(\<lambda>i. the (map_of (map (\<lambda>it. (item_id it, it)) its) i)) `
          {i \<in> set orderedIds. i \<in> item_id ` set its}
        = {it \<in> set its. item_id it \<in> set orderedIds}"
    using map_of_item_id[OF assms] by (force simp: image_iff)
  then show ?thesis
    unfolding reorder_items_spec[OF assms]
    by (auto simp: set_first_occurrences)
qed

lemma reorder_items_mset:
  assumes "distinct (map item_id its)"
  shows "mset (reorder_items orderedIds its) = mset its"
proof -
  have "distinct (map item_id (reorder_items orderedIds its))"
    unfolding reorder_items_ids[OF assms]
    using assms by (auto simp: distinct_first_occurrences set_first_occurrences)
  then have d1: "distinct (reorder_items orderedIds its)" by (simp add: distinct_map)
  have d2: "distinct its" using assms by (simp add: distinct_map)
  show ?thesis
    using set_eq_iff_mset_eq_distinct[OF d1 d2] reorder_items_set[OF assms] by blast
qed

text \<open>
  C10 (as amended). For every registry whose items have pairwise distinct ids and every
  \<open>orderedIds\<close> list, the reorder operation stores a permutation of the original items:
  the ids of \<open>orderedIds\<close> that exist in the registry come first, in \<open>orderedIds\<close> order
  (absent and repeated ids are ignored), the remaining items follow in their original
  relative order, nothing is added, duplicated or removed, and the reported count is the
  original number of items.
\<close>

theorem reorder_permutation:
  assumes "distinct (map item_id (items d))"
  shows "reorder_onRequestPost (Some a) (Some orderedIds) now (Some d)
           = (Reorder200 (length (items d)),
              Some (d\<lparr>items := reorder_items orderedIds (items d), reg_updatedAt := Some now\<rparr>))
         \<and> mset (reorder_items orderedIds (items d)) = mset (items d)
         \<and> map item_id (reorder_items orderedIds (items d))
             = filter (\<lambda>i. i \<in> item_id ` set (items d)) (first_occurrences [] orderedIds)
               @ filter (\<lambda>i. i \<notin> set orderedIds) (map item_id (items d))"
proof -
  have m: "mset (reorder_items orderedIds (items d)) = mset (items d)"
    using assms by (rule reorder_items_mset)
  have "size (mset (reorder_items orderedIds (items d))) = size (mset (items d))"
    by (simp only: m)
  then have len: "length (reorder_items orderedIds (items d)) = length (items d)"
    by simp
  show ?thesis
    using m len reorder_items_ids[OF assms, of orderedIds]
    by (simp add: reorder_onRequestPost_def Let_def)
qed

theorem reorder_permutation_witness:
  "distinct (map item_id [item0\<lparr>item_id := js ''r_1''\<rparr>, item0\<lparr>item_id := js ''r_2''\<rparr>])
   \<and> reorder_onRequestPost (Some agent0) (Some [js ''r_2'', js ''r_9'', js ''r_2'']) 5
        (Some \<lparr>writeVersion = Some 3,
               items = [item0\<lparr>item_id := js ''r_1''\<rparr>, item0\<lparr>item_id := js ''r_2''\<rparr>],
               reg_updatedAt = None\<rparr>)
      = (Reorder200 2,
         Some \<lparr>writeVersion = Some 3,
               items = reorder_items [js ''r_2'', js ''r_9'', js ''r_2'']
                         [item0\<lparr>item_id := js ''r_1''\<rparr>, item0\<lparr>item_id := js ''r_2''\<rparr>],
               reg_updatedAt = Some 5\<rparr>)
   \<and> map item_id (reorder_items [js ''r_2'', js ''r_9'', js ''r_2'']
                      [item0\<lparr>item_id := js ''r_1''\<rparr>, item0\<lparr>item_id := js ''r_2''\<rparr>])
      = [js ''r_2'', js ''r_1'']"
proof -
  have d: "distinct (map item_id (items \<lparr>writeVersion = Some 3,
               items = [item0\<lparr>item_id := js ''r_1''\<rparr>, item0\<lparr>item_id := js ''r_2''\<rparr>],
               reg_updatedAt = None\<rparr>))"
    by simp
  show ?thesis
    using reorder_permutation[OF d, of agent0 "[js ''r_2'', js ''r_9'', js ''r_2'']" 5]
    by simp
qed

text \<open>
  With two items under one id the \<open>Map\<close> keeps a single entry, the later item: the
  result is not a permutation and the count is smaller than the number of items.
\<close>

theorem reorder_duplicate_ids_counterexample:
  "reorder_onRequestPost (Some agent0) (Some []) 5
     (Some \<lparr>writeVersion = Some 3,
            items = [item0\<lparr>item_id := js ''r_1'', title := js ''A''\<rparr>,
                     item0\<lparr>item_id := js ''r_1'', title := js ''B''\<rparr>],
            reg_updatedAt = None\<rparr>)
   = (Reorder200 1,
      Some \<lparr>writeVersion = Some 3,
            items = [item0\<lparr>item_id := js ''r_1'', title := js ''B''\<rparr>],
            reg_updatedAt = Some 5\<rparr>)"
  by (simp add: reorder_onRequestPost_def reorder_items_def new_Map_def)

section \<open>Rating: upsert and reputation\<close>

lemma findIndex_None_iff: "findIndex p xs = None \<longleftrightarrow> (\<forall>x \<in> set xs. \<not> p x)"
  by (induction xs) (auto split: option.splits)

lemma findIndex_Some:
  "findIndex p xs = Some i \<Longrightarrow> i < length xs \<and> p (xs ! i) \<and> (\<forall>j < i. \<not> p (xs ! j))"
proof (induction xs arbitrary: i)
  case Nil then show ?case by simp
next
  case (Cons x xs)
  show ?case
  proof (cases "p x")
    case True with Cons.prems show ?thesis by simp
  next
    case False
    with Cons.prems obtain k where k: "findIndex p xs = Some k" "i = Suc k"
      by (auto split: option.splits)
    from Cons.IH[OF k(1)] False show ?thesis
      by (auto simp: k(2) nth_Cons split: nat.splits)
  qed
qed

lemma addContributor_ratings [simp]:
  "ratings (addContributor it ag) = ratings it" "reputation (addContributor it ag) = reputation it"
  "leader (addContributor it ag) = leader it"
  by (simp_all add: addContributor_def)

lemma bumpLeaderActivity_ratings [simp]:
  "ratings (bumpLeaderActivity now it ag) = ratings it"
  "reputation (bumpLeaderActivity now it ag) = reputation it"
  by (simp_all add: bumpLeaderActivity_def split: option.splits)

lemma foldl_score_sum: "foldl (\<lambda>s r. s + r_score r) a rs = a + sum_list (map r_score rs)"
  by (induction rs arbitrary: a) auto

lemma computeReputation_count: "rep_count (computeReputation rs) = length rs"
  by (simp add: computeReputation_def Let_def)

lemma math_round_nearest:
  "of_int (math_round x) \<le> x + 1 / 2 \<and> x + 1 / 2 < of_int (math_round x) + 1"
  unfolding math_round_def by linarith

lemma computeReputation_average:
  assumes "rs \<noteq> []"
  shows "(let mean = (of_int (sum_list (map r_score rs)) :: rat) / of_nat (length rs);
              average = (of_int (average_tenths (computeReputation rs)) :: rat) / 10
          in mean - 1 / 20 < average \<and> average \<le> mean + 1 / 20)"
proof -
  define m where "m = (of_int (sum_list (map r_score rs)) :: rat) / of_nat (length rs)"
  have a: "average_tenths (computeReputation rs) = math_round (m * 10)"
    using assms by (simp add: computeReputation_def Let_def foldl_score_sum m_def)
  from math_round_nearest[of "m * 10"]
  have "of_int (math_round (m * 10)) \<le> m * 10 + 1 / 2"
    and "m * 10 + 1 / 2 < of_int (math_round (m * 10)) + 1" by simp_all
  then have "m - 1 / 20 < of_int (math_round (m * 10)) / 10
             \<and> of_int (math_round (m * 10)) / 10 \<le> m + 1 / 20" by simp
  then show ?thesis by (simp add: Let_def a m_def)
qed

lemma upsert_keys_present:
  assumes "r_btcAddress r \<in> r_btcAddress ` set rs"
  shows "map r_btcAddress (upsert_rating r rs) = map r_btcAddress rs"
proof -
  from assms obtain y where "y \<in> set rs" "r_btcAddress y = r_btcAddress r" by auto
  then have "\<not> (\<forall>x \<in> set rs. \<not> r_btcAddress x = r_btcAddress r)" by blast
  then have "findIndex (\<lambda>x. r_btcAddress x = r_btcAddress r) rs \<noteq> None"
    by (simp only: findIndex_None_iff) simp
  then obtain i where i: "findIndex (\<lambda>x. r_btcAddress x = r_btcAddress r) rs = Some i" by auto
  from findIndex_Some[OF i] have "i < length rs" "r_btcAddress (rs ! i) = r_btcAddress r" by auto
  then have "(map r_btcAddress rs)[i := r_btcAddress r] = map r_btcAddress rs"
    by (metis list_update_id nth_map)
  then show ?thesis by (simp add: upsert_rating_def i map_update)
qed

lemma upsert_keys_absent:
  assumes "r_btcAddress r \<notin> r_btcAddress ` set rs"
  shows "upsert_rating r rs = rs @ [r]"
proof -
  from assms have "findIndex (\<lambda>x. r_btcAddress x = r_btcAddress r) rs = None"
    by (force simp: findIndex_None_iff image_iff)
  then show ?thesis by (simp add: upsert_rating_def)
qed

lemma upsert_member:
  "x \<in> set (upsert_rating r rs) \<Longrightarrow> x = r \<or> x \<in> set rs"
  by (auto simp: upsert_rating_def split: option.splits dest: set_update_subset_insert[THEN subsetD])

lemma upsert_own:
  assumes "distinct (map r_btcAddress rs)" "x \<in> set (upsert_rating r rs)"
    "r_btcAddress x = r_btcAddress r"
  shows "x = r"
proof (cases "findIndex (\<lambda>x. r_btcAddress x = r_btcAddress r) rs")
  case None
  then have "\<forall>y \<in> set rs. r_btcAddress y \<noteq> r_btcAddress r" by (simp add: findIndex_None_iff)
  with assms None show ?thesis by (auto simp: upsert_rating_def)
next
  case (Some i)
  from findIndex_Some[OF Some] have i: "i < length rs" "r_btcAddress (rs ! i) = r_btcAddress r" by auto
  from assms(2) Some have "x \<in> set (rs[i := r])" by (simp add: upsert_rating_def)
  then obtain j where j: "j < length rs" "x = rs[i := r] ! j" by (auto simp: in_set_conv_nth)
  show ?thesis
  proof (cases "j = i")
    case True with j i show ?thesis by simp
  next
    case False
    with j have x: "x = rs ! j" by simp
    from assms(1) have "inj_on (\<lambda>k. map r_btcAddress rs ! k) {..<length rs}"
      by (auto simp: distinct_conv_nth inj_on_def)
    with i j x assms(3) have "j = i"
      by (auto simp: inj_on_def dest!: spec[of _ j])
    with False show ?thesis by simp
  qed
qed

lemma upsert_distinct:
  assumes "distinct (map r_btcAddress rs)"
  shows "distinct (map r_btcAddress (upsert_rating r rs))"
proof (cases "r_btcAddress r \<in> r_btcAddress ` set rs")
  case True
  then show ?thesis using assms by (simp add: upsert_keys_present)
next
  case False
  then show ?thesis using assms by (simp add: upsert_keys_absent)
qed

lemma rate_action_distinct:
  assumes "rate_action ag sc rv now it = Inr it'" "distinct (map r_btcAddress (ratings it))"
  shows "distinct (map r_btcAddress (ratings it'))"
  using assms upsert_distinct[OF assms(2)]
  by (auto simp: rate_action_def Let_def split: option.splits if_splits)

lemma rate_many_distinct:
  "distinct (map r_btcAddress (ratings it)) \<Longrightarrow>
   distinct (map r_btcAddress (ratings (rate_many reqs it)))"
proof (induction reqs arbitrary: it)
  case Nil then show ?case by simp
next
  case (Cons q reqs)
  obtain ag sc rv now where q: "q = (ag, sc, rv, now)" by (cases q)
  show ?case
  proof (cases "rate_action ag sc rv now it")
    case (Inl e)
    then show ?thesis using Cons by (simp add: q)
  next
    case (Inr it')
    then have "distinct (map r_btcAddress (ratings it'))"
      using Cons.prems by (rule rate_action_distinct)
    then show ?thesis using Cons.IH[of it'] Inr by (simp add: q)
  qed
qed

text \<open>
  C6. For every integer score from 1 to 5 (and a review of at most 280 characters), a
  rate action on an item whose ratings hold at most one entry per account succeeds and
  replaces the account's existing rating rather than adding a second one: the accounts of
  the ratings list are the old ones, with the rater appended only if absent, so the list
  still holds no account twice; the rater's entry carries the new score and the other
  entries are the old ones. After the change \<open>reputation.count\<close> is the number of distinct
  accounts that have rated and \<open>reputation.average\<close>, a whole number of tenths, is the mean
  of the scores rounded to one decimal: it lies within one twentieth of the mean of the
  scores held in the ratings list, the upper of the two when the mean is halfway between
  two tenths. Any sequence of rate requests, valid or not, keeps the ratings free of a
  repeated account.
\<close>

theorem rate_upsert:
  assumes "1 \<le> score" "score \<le> 5" "length (trim review) \<le> 280"
      and "distinct (map r_btcAddress (ratings it))"
  shows "\<exists>it'. rate_action ag (Some score) review now it = Inr it'
       \<and> distinct (map r_btcAddress (ratings it'))
       \<and> map r_btcAddress (ratings it')
           = (if btcAddress ag \<in> r_btcAddress ` set (ratings it)
              then map r_btcAddress (ratings it)
              else map r_btcAddress (ratings it) @ [btcAddress ag])
       \<and> (\<forall>r \<in> set (ratings it').
             if r_btcAddress r = btcAddress ag then r_score r = score else r \<in> set (ratings it))
       \<and> rep_count (reputation it') = card (r_btcAddress ` set (ratings it'))
       \<and> (let mean = (of_int (sum_list (map r_score (ratings it'))) :: rat)
                        / of_nat (length (ratings it'));
                average = (of_int (average_tenths (reputation it')) :: rat) / 10
            in mean - 1 / 20 < average \<and> average \<le> mean + 1 / 20)
       \<and> distinct (map r_btcAddress (ratings (rate_many reqs it)))"
proof -
  define r where "r = \<lparr>r_agentId = agentId ag, r_btcAddress = btcAddress ag,
                         r_displayName = displayName ag, r_score = score,
                         r_review = (if trim review = [] then None else Some (trim review)),
                         r_ratedAt = now\<rparr>"
  define rs where "rs = upsert_rating r (ratings it)"
  define it' where "it' = (bumpLeaderActivity now
        (addContributor (it\<lparr>ratings := rs, reputation := computeReputation rs\<rparr>) ag) ag)
        \<lparr>updatedAt := now\<rparr>"
  have key: "r_btcAddress r = btcAddress ag" and sc: "r_score r = score" by (simp_all add: r_def)
  have res: "rate_action ag (Some score) review now it = Inr it'"
    using assms(1-3) by (simp add: rate_action_def Let_def it'_def rs_def r_def)
  have rat: "ratings it' = rs" and rep: "reputation it' = computeReputation rs"
    by (simp_all add: it'_def)
  have keys: "map r_btcAddress rs
           = (if btcAddress ag \<in> r_btcAddress ` set (ratings it)
              then map r_btcAddress (ratings it)
              else map r_btcAddress (ratings it) @ [btcAddress ag])"
    using upsert_keys_present[of r "ratings it"] upsert_keys_absent[of r "ratings it"]
    by (simp add: rs_def key)
  have dist: "distinct (map r_btcAddress rs)"
    using assms(4) by (simp add: keys)
  have own: "\<forall>x \<in> set rs. if r_btcAddress x = btcAddress ag then r_score x = score
                              else x \<in> set (ratings it)"
  proof
    fix x assume x: "x \<in> set rs"
    show "if r_btcAddress x = btcAddress ag then r_score x = score else x \<in> set (ratings it)"
    proof (cases "r_btcAddress x = btcAddress ag")
      case True
      then have "x = r" using upsert_own[OF assms(4), of x r] x by (simp add: rs_def key)
      then show ?thesis using True sc by simp
    next
      case False
      then have "x \<noteq> r" using key by auto
      then have "x \<in> set (ratings it)" using upsert_member[of x r "ratings it"] x
        by (simp add: rs_def)
      then show ?thesis using False by simp
    qed
  qed
  have ne: "rs \<noteq> []" using keys by (auto split: if_splits simp: image_iff)
  have cnt: "card (r_btcAddress ` set rs) = length rs"
    using dist by (metis distinct_card length_map set_map)
  have many: "distinct (map r_btcAddress (ratings (rate_many reqs it)))"
    using assms(4) by (rule rate_many_distinct)
  show ?thesis
    using res dist keys own cnt computeReputation_average[OF ne] many
    by (simp add: rat rep computeReputation_count)
qed

theorem rate_upsert_witness:
  "(1::int) \<le> 5 \<and> (5::int) \<le> 5 \<and> length (trim (js '' ok '')) \<le> 280
   \<and> distinct (map r_btcAddress (ratings rated_item))
   \<and> (\<exists>it'. rate_action agent0 (Some 5) (js '' ok '') 9 rated_item = Inr it'
        \<and> map r_btcAddress (ratings it') = [js ''bc1qexample'', js ''bc1qb'', js ''bc1qc'', js ''bc1qd'']
        \<and> map r_score (ratings it') = [5, 4, 4, 4]
        \<and> rep_count (reputation it') = 4
        \<and> average_tenths (reputation it') = 43)"
proof -
  have le1: "(1::int) \<le> 5" and le5: "(5::int) \<le> 5" by simp_all
  have h3: "length (trim (js '' ok '')) \<le> 280"
    by (simp add: trim_def is_space_def js_def)
  have accounts: "map r_btcAddress (ratings rated_item)
                    = [js ''bc1qexample'', js ''bc1qb'', js ''bc1qc'', js ''bc1qd'']"
    by (simp add: rated_item_def)
  have h4: "distinct (map r_btcAddress (ratings rated_item))"
    unfolding accounts by simp
  have in_it: "btcAddress agent0 \<in> r_btcAddress ` set (ratings rated_item)"
    by (simp add: rated_item_def agent0_def)
  from rate_upsert[OF le1 le5 h3 h4, where ag = agent0 and now = 9 and reqs = "[]"]
  obtain it' where all:
    "rate_action agent0 (Some 5) (js '' ok '') 9 rated_item = Inr it'
       \<and> distinct (map r_btcAddress (ratings it'))
       \<and> map r_btcAddress (ratings it')
           = (if btcAddress agent0 \<in> r_btcAddress ` set (ratings rated_item)
              then map r_btcAddress (ratings rated_item)
              else map r_btcAddress (ratings rated_item) @ [btcAddress agent0])
       \<and> (\<forall>r \<in> set (ratings it').
             if r_btcAddress r = btcAddress agent0 then r_score r = 5 else r \<in> set (ratings rated_item))
       \<and> rep_count (reputation it') = card (r_btcAddress ` set (ratings it'))
       \<and> (let mean = (of_int (sum_list (map r_score (ratings it'))) :: rat)
                        / of_nat (length (ratings it'));
                average = (of_int (average_tenths (reputation it')) :: rat) / 10
            in mean - 1 / 20 < average \<and> average \<le> mean + 1 / 20)
       \<and> distinct (map r_btcAddress (ratings (rate_many [] rated_item)))" ..
  from all have res: "rate_action agent0 (Some 5) (js '' ok '') 9 rated_item = Inr it'" by (rule conjunct1)
  from all have dist: "distinct (map r_btcAddress (ratings it'))" by blast
  from all have keys0: "map r_btcAddress (ratings it')
           = (if btcAddress agent0 \<in> r_btcAddress ` set (ratings rated_item)
              then map r_btcAddress (ratings rated_item)
              else map r_btcAddress (ratings rated_item) @ [btcAddress agent0])" by blast
  from all have cnt: "rep_count (reputation it') = card (r_btcAddress ` set (ratings it'))" by blast
  from all have avg: "(let mean = (of_int (sum_list (map r_score (ratings it'))) :: rat)
                        / of_nat (length (ratings it'));
                average = (of_int (average_tenths (reputation it')) :: rat) / 10
            in mean - 1 / 20 < average \<and> average \<le> mean + 1 / 20)" by blast
  have keys: "map r_btcAddress (ratings it')
                = [js ''bc1qexample'', js ''bc1qb'', js ''bc1qc'', js ''bc1qd'']"
    using keys0 in_it by (simp only: if_True accounts)
  have ev: "\<exists>x. rate_action agent0 (Some 5) (js '' ok '') 9 rated_item = Inr x
                \<and> map r_score (ratings x) = [5, 4, 4, 4]"
    using h3 by (simp add: rate_action_def Let_def upsert_rating_def agent0_def rated_item_def)
  then have scores: "map r_score (ratings it') = [5, 4, 4, 4]"
    using res by auto
  have "card (r_btcAddress ` set (ratings it')) = length (map r_btcAddress (ratings it'))"
    using dist by (metis distinct_card list.set_map)
  then have c4: "rep_count (reputation it') = 4"
    using cnt by (simp only: keys) simp
  have "length (map r_btcAddress (ratings it')) = 4" by (simp only: keys) simp
  then have len: "length (ratings it') = 4" by simp
  have "(17 / 4 :: rat) - 1 / 20 < of_int (average_tenths (reputation it')) / 10
        \<and> (of_int (average_tenths (reputation it')) :: rat) / 10 \<le> 17 / 4 + 1 / 20"
    using avg by (simp add: Let_def scores len)
  then have "(of_int 42 :: rat) < of_int (average_tenths (reputation it'))
             \<and> (of_int (average_tenths (reputation it')) :: rat) \<le> of_int 43"
    by simp
  then have "42 < average_tenths (reputation it') \<and> average_tenths (reputation it') \<le> 43"
    by (simp only: of_int_less_iff of_int_le_iff)
  then have a43: "average_tenths (reputation it') = 43" by simp
  have c: "rate_action agent0 (Some 5) (js '' ok '') 9 rated_item = Inr it'
        \<and> map r_btcAddress (ratings it') = [js ''bc1qexample'', js ''bc1qb'', js ''bc1qc'', js ''bc1qd'']
        \<and> map r_score (ratings it') = [5, 4, 4, 4]
        \<and> rep_count (reputation it') = 4
        \<and> average_tenths (reputation it') = 43"
    by (intro conjI res keys scores c4 a43)
  then have ex: "\<exists>it'. rate_action agent0 (Some 5) (js '' ok '') 9 rated_item = Inr it'
        \<and> map r_btcAddress (ratings it') = [js ''bc1qexample'', js ''bc1qb'', js ''bc1qc'', js ''bc1qd'']
        \<and> map r_score (ratings it') = [5, 4, 4, 4]
        \<and> rep_count (reputation it') = 4
        \<and> average_tenths (reputation it') = 43"
    by (rule exI[of _ it'])
  show ?thesis
    by (intro conjI le1 le5 h3 h4 ex)
qed

section \<open>Leadership takeover after inactivity\<close>

lemma days_lt_30:
  "daysSinceActive clock l < 30 \<longleftrightarrow>
     clock - (case l_lastActiveAt l of None \<Rightarrow> 0 | Some t \<Rightarrow> t) < 30 * 86400000"
proof -
  define e where "e = clock - (case l_lastActiveAt l of None \<Rightarrow> 0 | Some t \<Rightarrow> t)"
  have d: "daysSinceActive clock l = of_int e / 86400000"
    by (simp add: daysSinceActive_def e_def Let_def)
  have "(of_int e / 86400000 < (30::rat)) \<longleftrightarrow> (of_int e :: rat) < of_int (30 * 86400000)"
    by (simp add: divide_less_eq)
  also have "\<dots> \<longleftrightarrow> e < 30 * 86400000"
    by (simp only: of_int_less_iff)
  finally show ?thesis unfolding d e_def .
qed

lemma days_floor:
  "\<lfloor>daysSinceActive clock l\<rfloor>
     = (clock - (case l_lastActiveAt l of None \<Rightarrow> 0 | Some t \<Rightarrow> t)) div 86400000"
proof -
  define e where "e = clock - (case l_lastActiveAt l of None \<Rightarrow> 0 | Some t \<Rightarrow> t)"
  have "daysSinceActive clock l = of_int e / of_int 86400000"
    by (simp add: daysSinceActive_def e_def Let_def)
  then show ?thesis
    by (simp only: floor_divide_of_int_eq e_def)
qed

lemma version_getData [simp]: "version_or_0 (getData st) = stored_version st"
  by (cases st) (simp_all add: getData_def version_or_0_def stored_version_def Let_def)

lemma saveData_after_getData:
  "saveData now ((getData st)\<lparr>items := xs\<rparr>) st
     = (Inr ((getData st)\<lparr>items := xs, writeVersion := Some (stored_version st + 1),
                              reg_updatedAt := Some now\<rparr>),
        Some ((getData st)\<lparr>items := xs, writeVersion := Some (stored_version st + 1),
                              reg_updatedAt := Some now\<rparr>))"
proof -
  have "version_or_0 ((getData st)\<lparr>items := xs\<rparr>) = stored_version st"
    using version_getData[of st] by (simp add: version_or_0_def)
  then show ?thesis
    by (simp add: saveData_def saveData_check_def saveData_write_def Let_def)
qed

text \<open>
  C9. A \<open>claim_leadership\<close> action by an agent other than the current leader, made when
  the leader's last activity lies fewer than 30 days back, is rejected with an error that
  reports the whole number of elapsed days, and the stored registry (the leader with it)
  is left as it was; made at 30 or more days of inactivity it succeeds and stores the
  item with the requesting agent as leader, \<open>assignedAt\<close> and \<open>lastActiveAt\<close> set to the
  takeover time.
\<close>

theorem claim_leadership_takeover:
  assumes "body_id \<noteq> []"
      and "findIndex (\<lambda>i. item_id i = body_id) (items (getData st)) = Some idx"
      and "leader (items (getData st) ! idx) = Some l"
      and "l_btcAddress l \<noteq> btcAddress ag"
  shows "(clock - (case l_lastActiveAt l of None \<Rightarrow> 0 | Some t \<Rightarrow> t) < 30 * 86400000 \<longrightarrow>
            handlePut (Some ag) body_id ClaimLeadership clock now st
              = (Inl (LeaderStillActive
                        ((clock - (case l_lastActiveAt l of None \<Rightarrow> 0 | Some t \<Rightarrow> t)) div 86400000)
                        (l_lastActiveAt l)), st))
       \<and> (30 * 86400000 \<le> clock - (case l_lastActiveAt l of None \<Rightarrow> 0 | Some t \<Rightarrow> t) \<longrightarrow>
            (\<exists>it' d'. handlePut (Some ag) body_id ClaimLeadership clock now st = (Inr it', Some d')
               \<and> items d' = (items (getData st))[idx := it']
               \<and> leader it' = Some \<lparr>l_btcAddress = btcAddress ag, l_displayName = displayName ag,
                                     l_agentId = agentId ag,
                                     l_profileUrl = js ''https://aibtc.com/agents/'' @ btcAddress ag,
                                     l_assignedAt = now, l_lastActiveAt = Some now\<rparr>))"
proof (intro conjI impI)
  assume early: "clock - (case l_lastActiveAt l of None \<Rightarrow> 0 | Some t \<Rightarrow> t) < 30 * 86400000"
  then have "daysSinceActive clock l < 30" by (simp only: days_lt_30)
  then have "claim_leadership_action ag clock now (items (getData st) ! idx)
      = Inl (LeaderStillActive
               ((clock - (case l_lastActiveAt l of None \<Rightarrow> 0 | Some t \<Rightarrow> t)) div 86400000)
               (l_lastActiveAt l))"
    using assms(3,4) by (simp add: claim_leadership_action_def days_floor)
  then show "handlePut (Some ag) body_id ClaimLeadership clock now st
              = (Inl (LeaderStillActive
                        ((clock - (case l_lastActiveAt l of None \<Rightarrow> 0 | Some t \<Rightarrow> t)) div 86400000)
                        (l_lastActiveAt l)), st)"
    using assms(1,2) by (simp add: handlePut_def Let_def)
next
  assume late: "30 * 86400000 \<le> clock - (case l_lastActiveAt l of None \<Rightarrow> 0 | Some t \<Rightarrow> t)"
  then have nl: "\<not> daysSinceActive clock l < 30" by (simp only: days_lt_30)
  define it' where "it' = (addContributor ((items (getData st) ! idx)
        \<lparr>leader := Some \<lparr>l_btcAddress = btcAddress ag, l_displayName = displayName ag,
                          l_agentId = agentId ag,
                          l_profileUrl = js ''https://aibtc.com/agents/'' @ btcAddress ag,
                          l_assignedAt = now, l_lastActiveAt = Some now\<rparr>\<rparr>) ag)\<lparr>updatedAt := now\<rparr>"
  have act: "claim_leadership_action ag clock now (items (getData st) ! idx) = Inr it'"
    using assms(3,4) nl by (simp add: claim_leadership_action_def Let_def it'_def)
  have lead: "leader it' = Some \<lparr>l_btcAddress = btcAddress ag, l_displayName = displayName ag,
                                     l_agentId = agentId ag,
                                     l_profileUrl = js ''https://aibtc.com/agents/'' @ btcAddress ag,
                                     l_assignedAt = now, l_lastActiveAt = Some now\<rparr>"
    by (simp add: it'_def addContributor_def)
  have "handlePut (Some ag) body_id ClaimLeadership clock now st
          = (Inr it', Some ((getData st)\<lparr>items := (items (getData st))[idx := it'],
                                         writeVersion := Some (stored_version st + 1),
                                         reg_updatedAt := Some now\<rparr>))"
    using assms(1,2) act by (simp add: handlePut_def Let_def saveData_after_getData)
  then show "\<exists>it' d'. handlePut (Some ag) body_id ClaimLeadership clock now st = (Inr it', Some d')
               \<and> items d' = (items (getData st))[idx := it']
               \<and> leader it' = Some \<lparr>l_btcAddress = btcAddress ag, l_displayName = displayName ag,
                                     l_agentId = agentId ag,
                                     l_profileUrl = js ''https://aibtc.com/agents/'' @ btcAddress ag,
                                     l_assignedAt = now, l_lastActiveAt = Some now\<rparr>"
    using lead by simp
qed

theorem claim_leadership_takeover_witness:
  "handlePut (Some agent0) (js ''r_1'') ClaimLeadership (1000 + 10 * 86400000 + 7) 5 store0
     = (Inl (LeaderStillActive 10 (Some 1000)), store0)
   \<and> (\<exists>it' d'. handlePut (Some agent0) (js ''r_1'') ClaimLeadership (1000 + 31 * 86400000) 2678401001 store0
                 = (Inr it', Some d')
        \<and> items d' = [it']
        \<and> map_option l_btcAddress (leader it') = Some (js ''bc1qexample'')
        \<and> map_option l_assignedAt (leader it') = Some 2678401001
        \<and> map_option l_lastActiveAt (leader it') = Some (Some 2678401001))"
proof -
  have a1: "js ''r_1'' \<noteq> []" by simp
  have a2: "findIndex (\<lambda>i. item_id i = js ''r_1'') (items (getData store0)) = Some 0"
    by (simp add: store0_def getData_def Let_def)
  have a3: "leader (items (getData store0) ! 0) = Some leader0"
    by (simp add: store0_def getData_def Let_def)
  have a4: "l_btcAddress leader0 \<noteq> btcAddress agent0"
    by (simp add: leader0_def agent0_def)
  have its: "items (getData store0) = [item0\<lparr>item_id := js ''r_1'', leader := Some leader0\<rparr>]"
    by (simp add: store0_def getData_def Let_def)
  have la: "l_lastActiveAt leader0 = Some 1000" by (simp add: leader0_def)
  from claim_leadership_takeover[OF a1 a2 a3 a4, of "1000 + 10 * 86400000 + 7" 5]
  have early: "handlePut (Some agent0) (js ''r_1'') ClaimLeadership (1000 + 10 * 86400000 + 7) 5 store0
     = (Inl (LeaderStillActive 10 (Some 1000)), store0)"
    by (simp add: la)
  from claim_leadership_takeover[OF a1 a2 a3 a4, of "1000 + 31 * 86400000" 2678401001]
  obtain it' d' where "handlePut (Some agent0) (js ''r_1'') ClaimLeadership (1000 + 31 * 86400000) 2678401001 store0
                 = (Inr it', Some d')"
     and "items d' = (items (getData store0))[0 := it']"
     and "leader it' = Some \<lparr>l_btcAddress = btcAddress agent0, l_displayName = displayName agent0,
                                     l_agentId = agentId agent0,
                                     l_profileUrl = js ''https://aibtc.com/agents/'' @ btcAddress agent0,
                                     l_assignedAt = 2678401001, l_lastActiveAt = Some 2678401001\<rparr>"
    by (auto simp: la)
  then have "\<exists>it' d'. handlePut (Some agent0) (js ''r_1'') ClaimLeadership (1000 + 31 * 86400000) 2678401001 store0
                 = (Inr it', Some d')
        \<and> items d' = [it']
        \<and> map_option l_btcAddress (leader it') = Some (js ''bc1qexample'')
        \<and> map_option l_assignedAt (leader it') = Some 2678401001
        \<and> map_option l_lastActiveAt (leader it') = Some (Some 2678401001)"
    by (auto simp: its agent0_def)
  with early show ?thesis by blast
qed

section \<open>Refresh and the status\<close>











lemma issue_item_refresh:
  "refresh_item 900000 (\<lambda>u. Fresh reopened_issue) issue_item
     = (issue_item\<lparr>githubData := Some reopened_issue, updatedAt := 900000\<rparr>, True, True,
        [\<lparr>ev_itemId = js ''r_1'', ev_itemTitle = js ''Parser'',
          ev_oldStatus = js ''done'', ev_newStatus = js ''in-progress''\<rparr>])"
  by (simp add: refresh_item_def deriveStatus_def issue_item_def item0_def closed_issue_def
        reopened_issue_def STALE_AFTER_MS_def fetchedAt_or_0_def Let_def)



subsection \<open>The status derived from the snapshot\<close>

text \<open>
  The status the item endpoint reports is \<open>deriveStatus\<close> of the stored snapshot, and the
  refresh replaces the snapshot. After the successful fetch of a stale item the derived
  status is that of the fresh snapshot, and a change is pushed as an event with the old
  and the new derived status.
\<close>

lemma refresh_item_fresh:
  assumes "githubUrl it \<noteq> []" "STALE_AFTER_MS \<le> now - fetchedAt_or_0 it"
      and "fetch (githubUrl it) = Fresh f"
  shows "refresh_item now fetch it =
           (it\<lparr>githubData := Some f, updatedAt := now\<rparr>, True, True,
            if deriveStatus it \<noteq> deriveStatus (it\<lparr>githubData := Some f\<rparr>)
            then [\<lparr>ev_itemId = item_id it, ev_itemTitle = title it,
                   ev_oldStatus = deriveStatus it,
                   ev_newStatus = deriveStatus (it\<lparr>githubData := Some f\<rparr>)\<rparr>]
            else [])"
  using assms by (simp add: refresh_item_def Let_def)

lemma deriveStatus_updatedAt: "deriveStatus (it\<lparr>updatedAt := t\<rparr>) = deriveStatus it"
  by (simp add: deriveStatus_def)

lemma refresh_item_fresh_derived:
  assumes "githubUrl it \<noteq> []" "STALE_AFTER_MS \<le> now - fetchedAt_or_0 it"
      and "fetch (githubUrl it) = Fresh f"
  shows "deriveStatus (fst (refresh_item now fetch it)) = deriveStatus (it\<lparr>githubData := Some f\<rparr>)"
  using assms by (simp add: refresh_item_def Let_def deriveStatus_def)

text \<open>
  An item whose issue was closed has the derived status \<open>'done'\<close>; the issue is reopened,
  the refresh fetches it, and the derived status is \<open>'in-progress'\<close>.
\<close>

lemma refresh_reopened_issue_derived:
  "deriveStatus issue_item = js ''done''
   \<and> deriveStatus (fst (refresh_item 900000 (\<lambda>u. Fresh reopened_issue) issue_item))
       = js ''in-progress''"
  by (simp add: refresh_item_def deriveStatus_def issue_item_def item0_def closed_issue_def
        reopened_issue_def STALE_AFTER_MS_def fetchedAt_or_0_def Let_def)

text \<open>
  The third 404 since the last successful fetch sets the state of the snapshot to
  \<open>'archived'\<close>, whatever the type of the snapshot. For an issue that was closed this takes the derived status from
  \<open>'done'\<close> to \<open>'in-progress'\<close>, while the event pushed reads from \<open>'in-progress'\<close> to \<open>'done'\<close>.
  The \<open>status\<close> field stays as it was.
\<close>

lemma refresh_third_not_found_derived:
  "deriveStatus missing_issue_item = js ''done''
   \<and> deriveStatus (fst (refresh_item 900000 (\<lambda>u. FetchNotFound) missing_issue_item))
       = js ''in-progress''
   \<and> snd (snd (snd (refresh_item 900000 (\<lambda>u. FetchNotFound) missing_issue_item)))
       = [\<lparr>ev_itemId = js ''r_1'', ev_itemTitle = js ''Parser'',
           ev_oldStatus = js ''in-progress'', ev_newStatus = js ''done''\<rparr>]
   \<and> status (fst (refresh_item 900000 (\<lambda>u. FetchNotFound) missing_issue_item)) = js ''done''"
  by (simp add: refresh_item_def deriveStatus_def missing_issue_item_def issue_item_def item0_def
        closed_issue_def spread_githubData_def STALE_AFTER_MS_def fetchedAt_or_0_def Let_def)

section \<open>Mention matching: the title and the bare repository name\<close>

lemmas mention_defs = getMatchTerms_def title_terms_def slug_terms_def github_terms_def
  repo_name_terms_def site_terms_def alias_terms_def titleParts_def slugify_def
  repoName_def ghPath_def strip_github_prefix_def strip_prefix_def ascii_lower_def
  is_title_delimiter_def is_slug_char_def trim_def is_space_def

lemma starts_with_iff: "starts_with s p \<longleftrightarrow> (\<exists>post. s = p @ post)"
  by (induction s p rule: starts_with.induct) auto

lemma str_includes_iff: "str_includes h n \<longleftrightarrow> (\<exists>pre post. h = pre @ n @ post)"
proof (induction h)
  case Nil
  then show ?case by auto
next
  case (Cons c cs)
  show ?case
  proof
    assume "str_includes (c # cs) n"
    then consider "starts_with (c # cs) n" | "str_includes cs n" by auto
    then show "\<exists>pre post. c # cs = pre @ n @ post"
    proof cases
      case 1
      then obtain post where "c # cs = n @ post" by (auto simp: starts_with_iff)
      then have "c # cs = [] @ n @ post" by simp
      then show ?thesis by blast
    next
      case 2
      with Cons.IH obtain pre post where "cs = pre @ n @ post" by auto
      then have "c # cs = (c # pre) @ n @ post" by simp
      then show ?thesis by blast
    qed
  next
    assume "\<exists>pre post. c # cs = pre @ n @ post"
    then obtain pre post where e: "c # cs = pre @ n @ post" by auto
    show "str_includes (c # cs) n"
    proof (cases pre)
      case Nil
      with e have "starts_with (c # cs) n" by (auto simp: starts_with_iff)
      then show ?thesis by simp
    next
      case (Cons a pre')
      with e have "cs = pre' @ n @ post" by simp
      with Cons.IH have "str_includes cs n" by auto
      then show ?thesis by simp
    qed
  qed
qed

lemma dedupe_terms_texts: "t_text ` set (dedupe_terms seen ts) = t_text ` set ts - set seen"
  by (induction ts arbitrary: seen) auto

lemma title_terms_head:
  "toLowerCase P (title it) \<noteq> [] \<Longrightarrow>
   \<exists>rest. getMatchTerms P it = \<lparr>t_text = toLowerCase P (title it), t_type = js ''title''\<rparr> # rest"
  by (simp add: getMatchTerms_def title_terms_def Let_def)

lemma matchMention_title:
  assumes "toLowerCase P (title it) \<noteq> []" "preview = pre @ toLowerCase P (title it) @ post"
  shows "matchMention P preview it = Some (js ''title'')"
proof -
  from title_terms_head[OF assms(1)] obtain rest where
    "getMatchTerms P it = \<lparr>t_text = toLowerCase P (title it), t_type = js ''title''\<rparr> # rest" by blast
  moreover have "str_includes preview (toLowerCase P (title it))"
    using assms(2) by (auto simp: str_includes_iff)
  ultimately show ?thesis by (simp add: matchMention_def)
qed

lemma mention_item_title:
  assumes "toLowerCase P (title it) \<noteq> []" "e_messagePreview ev = Some m"
      and "toLowerCase P m = pre @ toLowerCase P (title it) @ post"
  shows "mentions (fst (mention_item P ev it))
           = Some ((case mentions it of None \<Rightarrow> 0 | Some c \<Rightarrow> c) + 1)"
proof -
  have "matchMention P (toLowerCase P m) it = Some (js ''title'')"
    using assms(1,3) by (rule matchMention_title)
  then show ?thesis
    using assms(2) by (simp add: mention_item_def Let_def addContributor_def split: option.splits)
qed

lemma repo_name_terms_short: "length (repoName P it) < 8 \<Longrightarrow> repo_name_terms P it = []"
  by (simp add: repo_name_terms_def)

text \<open>
  C5 (as amended). Mention matching is substring matching: a preview matches an item
  exactly when it contains the text of one of the item's match terms. The title is
  lower-cased by the platform, and so is the message before the scan matches it. For
  every item whose lower-cased title is not empty, a preview that contains the
  lower-cased title matches the item, with the type \<open>'title'\<close>; and the scan counts a
  message whose lower-cased preview contains the lower-cased title as a mention of the
  item. For every item whose bare repository name is shorter than 8 characters, the
  bare-name rule generates no term: the match terms are those of the title, slug, URL,
  path, homepage and alias rules, and the bare name is among them only when one of these
  rules produces the same text.
\<close>

theorem mention_matching:
  "(toLowerCase P (title it) \<noteq> [] \<longrightarrow>
      matchMention P (pre @ toLowerCase P (title it) @ post) it = Some (js ''title'')
      \<and> (e_messagePreview ev = Some m
           \<and> toLowerCase P m = pre @ toLowerCase P (title it) @ post \<longrightarrow>
           mentions (fst (mention_item P ev it))
             = Some ((case mentions it of None \<Rightarrow> 0 | Some c \<Rightarrow> c) + 1)))
   \<and> (matchMention P preview it \<noteq> None \<longleftrightarrow>
        (\<exists>t \<in> set (getMatchTerms P it). \<exists>a b. preview = a @ t_text t @ b))
   \<and> (length (repoName P it) < 8 \<longrightarrow>
        getMatchTerms P it
          = dedupe_terms []
              (title_terms P it @ slug_terms P it
               @ (if ghPath P it \<noteq> []
                  then [\<lparr>t_text = toLowerCase P (githubUrl it), t_type = js ''url''\<rparr>,
                        \<lparr>t_text = ghPath P it, t_type = js ''url''\<rparr>]
                  else [])
               @ site_terms P it @ alias_terms it)
        \<and> (repoName P it \<in> t_text ` set (getMatchTerms P it) \<longrightarrow>
             repoName P it \<in> t_text ` set (title_terms P it @ slug_terms P it @ site_terms P it
                                            @ alias_terms it)
             \<or> (ghPath P it \<noteq> [] \<and> repoName P it \<in> {toLowerCase P (githubUrl it), ghPath P it})))"
proof -
  have p1: "toLowerCase P (title it) \<noteq> [] \<longrightarrow>
      matchMention P (pre @ toLowerCase P (title it) @ post) it = Some (js ''title'')
      \<and> (e_messagePreview ev = Some m
           \<and> toLowerCase P m = pre @ toLowerCase P (title it) @ post \<longrightarrow>
           mentions (fst (mention_item P ev it))
             = Some ((case mentions it of None \<Rightarrow> 0 | Some c \<Rightarrow> c) + 1))"
    using matchMention_title[of P it _ pre post] mention_item_title[of P it ev m pre post]
    by blast
  have p2: "matchMention P preview it \<noteq> None \<longleftrightarrow>
        (\<exists>t \<in> set (getMatchTerms P it). \<exists>a b. preview = a @ t_text t @ b)"
    by (auto simp: matchMention_def find_None_iff str_includes_iff)
  have p3: "length (repoName P it) < 8 \<longrightarrow>
        getMatchTerms P it
          = dedupe_terms []
              (title_terms P it @ slug_terms P it
               @ (if ghPath P it \<noteq> []
                  then [\<lparr>t_text = toLowerCase P (githubUrl it), t_type = js ''url''\<rparr>,
                        \<lparr>t_text = ghPath P it, t_type = js ''url''\<rparr>]
                  else [])
               @ site_terms P it @ alias_terms it)"
    by (simp add: getMatchTerms_def github_terms_def repo_name_terms_short)
  have p4: "length (repoName P it) < 8 \<longrightarrow>
        (repoName P it \<in> t_text ` set (getMatchTerms P it) \<longrightarrow>
             repoName P it \<in> t_text ` set (title_terms P it @ slug_terms P it @ site_terms P it
                                            @ alias_terms it)
             \<or> (ghPath P it \<noteq> [] \<and> repoName P it \<in> {toLowerCase P (githubUrl it), ghPath P it}))"
    by (auto simp: getMatchTerms_def github_terms_def repo_name_terms_short dedupe_terms_texts
          split: if_splits)
  show ?thesis using p1 p2 p3 p4 by blast
qed

lemma library_terms: "getMatchTerms plain_platform library_item
   = [\<lparr>t_text = js ''skills library'', t_type = js ''title''\<rparr>,
      \<lparr>t_text = js ''skills-library'', t_type = js ''slug''\<rparr>,
      \<lparr>t_text = js ''https://github.com/aibtcdev/skills'', t_type = js ''url''\<rparr>,
      \<lparr>t_text = js ''aibtcdev/skills'', t_type = js ''url''\<rparr>]"
  by (simp add: mention_defs library_item_def item0_def js_def Let_def)

lemma library_repoName: "repoName plain_platform library_item = js ''skills''"
  by (simp add: mention_defs library_item_def item0_def js_def)

lemma library_title_lower: "ascii_lower (title library_item) = js ''skills library''"
  by (simp add: library_item_def ascii_lower_def js_def)

theorem mention_matching_witness:
  "toLowerCase plain_platform (title library_item) \<noteq> []
   \<and> matchMention plain_platform (js ''try the skills library today'') library_item
       = Some (js ''title'')
   \<and> mentions (fst (mention_item plain_platform
         \<lparr>e_type = Some (js ''message''), e_timestamp = Some 7,
           e_messagePreview = Some (js ''Try the SKILLS Library today''),
           e_agent = None, e_recipient = None\<rparr> library_item)) = Some 1
   \<and> length (repoName plain_platform library_item) < 8
   \<and> getMatchTerms plain_platform library_item
       = [\<lparr>t_text = js ''skills library'', t_type = js ''title''\<rparr>,
          \<lparr>t_text = js ''skills-library'', t_type = js ''slug''\<rparr>,
          \<lparr>t_text = js ''https://github.com/aibtcdev/skills'', t_type = js ''url''\<rparr>,
          \<lparr>t_text = js ''aibtcdev/skills'', t_type = js ''url''\<rparr>]
   \<and> repoName plain_platform library_item \<notin> t_text ` set (getMatchTerms plain_platform library_item)
   \<and> matchMention plain_platform (js ''skills'') library_item = None"
proof -
  let ?ev = "\<lparr>e_type = Some (js ''message''), e_timestamp = Some 7,
           e_messagePreview = Some (js ''Try the SKILLS Library today''),
           e_agent = None, e_recipient = None\<rparr>"
  have t: "toLowerCase plain_platform (title library_item) \<noteq> []"
    by (simp add: library_title_lower)
  have split: "js ''try the skills library today''
                 = js ''try the '' @ toLowerCase plain_platform (title library_item) @ js '' today''"
    by (simp add: library_title_lower js_def)
  have pv: "e_messagePreview ?ev = Some (js ''Try the SKILLS Library today'')" by simp
  have lc: "toLowerCase plain_platform (js ''Try the SKILLS Library today'')
              = js ''try the '' @ toLowerCase plain_platform (title library_item) @ js '' today''"
    apply (simp add: library_title_lower)
    apply (simp add: ascii_lower_def js_def)
    done
  have m0: "mentions library_item = None" by (simp add: library_item_def item0_def)
  have short: "length (repoName plain_platform library_item) < 8" by (simp add: library_repoName)
  have notin: "repoName plain_platform library_item
                 \<notin> t_text ` set (getMatchTerms plain_platform library_item)"
    by (simp add: library_terms library_repoName)
  have nomatch: "matchMention plain_platform (js ''skills'') library_item = None"
    by (simp add: matchMention_def library_terms) (simp add: js_def)
  from mention_matching[where it = library_item and P = plain_platform and pre = "js ''try the ''"
      and post = "js '' today''" and ev = ?ev and m = "js ''Try the SKILLS Library today''"
      and preview = "js ''skills''"]
  have "matchMention plain_platform
          (js ''try the '' @ toLowerCase plain_platform (title library_item) @ js '' today'')
          library_item = Some (js ''title'')
        \<and> mentions (fst (mention_item plain_platform ?ev library_item))
            = Some ((case mentions library_item of None \<Rightarrow> 0 | Some c \<Rightarrow> c) + 1)"
    using t pv lc by blast
  then have "matchMention plain_platform (js ''try the skills library today'') library_item
               = Some (js ''title'')
        \<and> mentions (fst (mention_item plain_platform ?ev library_item)) = Some 1"
    unfolding split[symmetric] by (simp add: m0)
  then show ?thesis
    using t short notin nomatch library_terms by simp
qed

text \<open>
  An item titled after its repository: the bare name \<open>skills\<close> (6 characters) is the text
  of the title term, so it is among the match terms and a message holding only that name
  matches.
\<close>

lemma skills_terms: "getMatchTerms plain_platform skills_item
   = [\<lparr>t_text = js ''skills'', t_type = js ''title''\<rparr>,
      \<lparr>t_text = js ''https://github.com/aibtcdev/skills'', t_type = js ''url''\<rparr>,
      \<lparr>t_text = js ''aibtcdev/skills'', t_type = js ''url''\<rparr>]"
  by (simp add: mention_defs skills_item_def item0_def js_def Let_def)

lemma skills_repoName: "repoName plain_platform skills_item = js ''skills''"
  by (simp add: mention_defs skills_item_def item0_def js_def)

theorem bare_name_as_title_counterexample:
  "length (repoName plain_platform skills_item) < 8
   \<and> repoName plain_platform skills_item \<in> t_text ` set (getMatchTerms plain_platform skills_item)
   \<and> matchMention plain_platform (js ''skills'') skills_item = Some (js ''title'')"
proof -
  have "matchMention plain_platform (js ''skills'') skills_item = Some (js ''title'')"
    by (simp add: matchMention_def skills_terms) (simp add: js_def)
  then show ?thesis by (simp add: skills_repoName skills_terms)
qed

section \<open>The full-reset mention rescan is idempotent\<close>

subsection \<open>The archive\<close>






subsection \<open>Matching depends on four fields\<close>




lemma addContributor_fields [simp]:
  "title (addContributor it ag) = title it" "githubUrl (addContributor it ag) = githubUrl it"
  "githubData (addContributor it ag) = githubData it"
  "searchTerms (addContributor it ag) = searchTerms it"
  "item_id (addContributor it ag) = item_id it" "mentions (addContributor it ag) = mentions it"
  by (simp_all add: addContributor_def)






lemma zero_mentions_fields [simp]:
  "title (zero_mentions it) = title it" "githubUrl (zero_mentions it) = githubUrl it"
  "githubData (zero_mentions it) = githubData it" "searchTerms (zero_mentions it) = searchTerms it"
  "item_id (zero_mentions it) = item_id it"
  "mentions (zero_mentions it) = map_option (\<lambda>n. 0) (mentions it)"
  by (simp_all add: zero_mentions_def split: option.splits)





subsection \<open>The save in a quiet world\<close>

lemma version_getData_items [simp]:
  "version_or_0 ((getData st)\<lparr>items := xs\<rparr>) = stored_version st"
  using version_getData[of st] by (simp add: version_or_0_def)

subsection \<open>A reset scan in closed form\<close>





lemma archiveMessages_Nil [simp]: "archiveMessages [] A = A"
  by (simp add: archiveMessages_def)




lemma items_getData_Some [simp]: "items (getData (Some d)) = items d"
  by (simp add: getData_def Let_def)





section \<open>Website discovery: two projects, one URL\<close>

lemma score_myapp: "isDeploymentUrl plain_platform (js ''https://myapp.pages.dev'') = 10"
  by (simp add: isDeploymentUrl_def plain_url_parser_def NOISE_HOSTS_def noise_path_def
        ends_with_def ascii_lower_def js_def Let_def)

lemma score_old: "isDeploymentUrl plain_platform (js ''https://old.pages.dev'') = 10"
  by (simp add: isDeploymentUrl_def plain_url_parser_def NOISE_HOSTS_def noise_path_def
        ends_with_def ascii_lower_def js_def Let_def)

lemma step0:
  "discover_step plain_platform 5000000 rd ar 0
     \<lparr>ds_items = [app_item, fork_item], ds_claimed = C, ds_repos = R, ds_changed = False,
      ds_discovered = 0, ds_scanned = [], ds_errors = []\<rparr>
   = \<lparr>ds_items = [app_item, fork_item], ds_claimed = C, ds_repos = R, ds_changed = False,
      ds_discovered = 0, ds_scanned = [], ds_errors = []\<rparr>"
  by (simp add: discover_step_def sync_homepage_def should_clear_def homepage_of_def
        app_item_def fork_item_def item0_def githubData0_def score_myapp Let_def)

lemma step1:
  "discover_step plain_platform 5000000 rd ar (Suc 0)
     \<lparr>ds_items = [app_item, fork_item], ds_claimed = C, ds_repos = R, ds_changed = False,
      ds_discovered = 0, ds_scanned = [], ds_errors = []\<rparr>
   = \<lparr>ds_items = [app_item, fork_synced], ds_claimed = C, ds_repos = R, ds_changed = True,
      ds_discovered = 0, ds_scanned = [], ds_errors = []\<rparr>"
  by (simp add: discover_step_def sync_homepage_def should_clear_def homepage_of_def
        app_item_def fork_item_def fork_synced_def item0_def githubData0_def score_myapp Let_def)

text \<open>
  C4. A run of \<open>discoverWebsites\<close> can leave two projects with the same website URL.
  In the registry of the two projects no URL is held twice. The run leaves the first
  project's claim alone
  (no other item holds its URL as a homepage claim at that moment) and then brings the
  second project's homepage claim in step with its repository's homepage without
  consulting the set of claimed URLs: when the run has completed, and saved, both
  projects hold \<open>https://myapp.pages.dev\<close>.
\<close>

theorem discoverWebsites_duplicate_claim:
  "map (\<lambda>it. map_option w_url (website it)) [app_item, fork_item]
     = [Some (js ''https://myapp.pages.dev''), Some (js ''https://old.pages.dev'')]
   \<and> discoverWebsites plain_platform 5000000 (\<lambda>rp. ReadmeNotOk) two_project_kv
     = (Inr (Discovered 0 0 []),
        two_project_kv
          \<lparr>kv_world :=
              \<lparr>stored = Some \<lparr>writeVersion = Some 5, items = [app_item, fork_synced],
                              reg_updatedAt = Some 5000000\<rparr>,
               pending = [], slept = [],
               puts = [\<lparr>writeVersion = Some 5, items = [app_item, fork_synced],
                        reg_updatedAt = Some 5000000\<rparr>]\<rparr>,
           kv_github_scan := Some \<lparr>websiteFilterVersion = Some 5, repos = (\<lambda>rp. None)\<rparr>\<rparr>)
   \<and> map (\<lambda>it. map_option w_url (website it)) [app_item, fork_synced]
     = [Some (js ''https://myapp.pages.dev''), Some (js ''https://myapp.pages.dev'')]"
proof -
  have a: "map (\<lambda>it. map_option w_url (website it)) [app_item, fork_item]
     = [Some (js ''https://myapp.pages.dev''), Some (js ''https://old.pages.dev'')]"
    by (simp add: app_item_def fork_item_def)
  have c: "map (\<lambda>it. map_option w_url (website it)) [app_item, fork_synced]
     = [Some (js ''https://myapp.pages.dev''), Some (js ''https://myapp.pages.dev'')]"
    by (simp add: app_item_def fork_synced_def)
  have g: "kv_get (kv_world two_project_kv)
             = (Inr (Some (reg0\<lparr>items := [app_item, fork_item]\<rparr>)), kv_world two_project_kv)"
    by (simp add: kv_get_def env_turn_def two_project_kv_def)
  have d: "getData (Some (reg0\<lparr>items := [app_item, fork_item]\<rparr>))
             = \<lparr>writeVersion = Some 4, items = [app_item, fork_item], reg_updatedAt = None\<rparr>"
    by (simp add: getData_def reg0_def version_or_0_def Let_def)
  have sv: "saveRetry 5000000 \<lparr>writeVersion = Some 4, items = [app_item, fork_synced], reg_updatedAt = None\<rparr>
              (kv_world two_project_kv)
            = (Inr \<lparr>writeVersion = Some 5, items = [app_item, fork_synced], reg_updatedAt = Some 5000000\<rparr>,
               \<lparr>stored = Some \<lparr>writeVersion = Some 5, items = [app_item, fork_synced],
                              reg_updatedAt = Some 5000000\<rparr>,
                pending = [], slept = [],
                puts = [\<lparr>writeVersion = Some 5, items = [app_item, fork_synced],
                         reg_updatedAt = Some 5000000\<rparr>]\<rparr>)"
    unfolding saveRetry_def
    apply (subst saveRetry_from.simps)
    apply (simp add: saveData_in_def kv_get_def kv_put_def env_turn_def saveData_check_def
        saveData_write_def two_project_kv_def reg0_def version_or_0_def stored_version_def Let_def)
    done
  have b: "discoverWebsites plain_platform 5000000 (\<lambda>rp. ReadmeNotOk) two_project_kv
     = (Inr (Discovered 0 0 []),
        two_project_kv
          \<lparr>kv_world :=
              \<lparr>stored = Some \<lparr>writeVersion = Some 5, items = [app_item, fork_synced],
                              reg_updatedAt = Some 5000000\<rparr>,
               pending = [], slept = [],
               puts = [\<lparr>writeVersion = Some 5, items = [app_item, fork_synced],
                        reg_updatedAt = Some 5000000\<rparr>]\<rparr>,
           kv_github_scan := Some \<lparr>websiteFilterVersion = Some 5, repos = (\<lambda>rp. None)\<rparr>\<rparr>)"
    unfolding discoverWebsites_def g
    apply (simp add: d Let_def upt_rec step0 step1 sv)
    apply (simp add: two_project_kv_def)
    done
  show ?thesis using a b c by blast
qed

end
